theory Spec2Isabelle
  imports Complex_Main "HOL-Library.Sublist" "HOL-Library.Log_Nat" "HOL-Library.Word"
begin

section \<open>Strings and thrown values\<close>

text \<open>
  A JavaScript string is a sequence of 16-bit code units, and \<open>length\<close> counts them.
  \<open>js\<close> writes an ASCII literal. Node types and property keys of the syntax tree are
  plain tags and stay Isabelle strings.
\<close>

type_synonym jsstring = "16 word list"

definition js :: "string \<Rightarrow> jsstring" where
  "js s = map of_char s"

text \<open>\<open>s.includes(t)\<close>: \<open>t\<close> occurs in \<open>s\<close> as a contiguous run.\<close>

fun js_includes :: "jsstring \<Rightarrow> jsstring \<Rightarrow> bool" where
  "js_includes [] t = (t = [])"
| "js_includes (c # s) t = (prefix t (c # s) \<or> js_includes s t)"

text \<open>\<open>s.endsWith(t)\<close>.\<close>

definition endsWith :: "jsstring \<Rightarrow> jsstring \<Rightarrow> bool" where
  "endsWith s t = prefix (rev t) (rev s)"

text \<open>A non-negative integer in a template literal: its decimal digits.\<close>

function decimal :: "nat \<Rightarrow> jsstring" where
  "decimal n = (if n < 10 then [of_nat (48 + n)]
                else decimal (n div 10) @ [of_nat (48 + n mod 10)])"
  by pat_completeness auto
termination
  by (relation "measure id") auto

text \<open>
  \<open>code.split('\n')\<close>: the pieces between the occurrences of the separator, the piece
  being collected carried along.
\<close>

fun split_from :: "jsstring \<Rightarrow> 16 word \<Rightarrow> jsstring \<Rightarrow> jsstring list" where
  "split_from cur sep [] = [cur]"
| "split_from cur sep (c # cs) =
     (if c = sep then cur # split_from [] sep cs else split_from (cur @ [c]) sep cs)"

definition split :: "jsstring \<Rightarrow> 16 word \<Rightarrow> jsstring list" where
  "split s sep = split_from [] sep s"

definition newline :: "16 word" where
  "newline = 10"

record position =
  pos_line :: nat
  pos_column :: nat

text \<open>
  A thrown value. Only the parser's errors are looked into: they carry a message and,
  when the parser knows it, a position.
\<close>

record js_error =
  err_message :: jsstring
  err_loc :: "position option"

definition type_error :: js_error where
  "type_error = \<lparr>err_message = js ''TypeError'', err_loc = None\<rparr>"

section \<open>Syntax trees and their traversal\<close>

text \<open>
  The analysis engine works on the syntax trees produced by the parser. A tree node carries
  its node type, an optional source location, its scalar properties (\<open>operator\<close>,
  \<open>name\<close>, \<open>value\<close>, \<open>async\<close>, ...) and its child nodes. Children are stored under the
  property they sit in (\<open>test\<close>, \<open>consequent\<close>, \<open>body\<close>, ...), in the order in which the
  traversal library enumerates them; a list-valued property contributes one entry per
  element and a \<open>null\<close> child contributes none.
\<close>

datatype jsval = JStr jsstring | JNum int | JBool bool

record source_location =
  loc_start :: position
  loc_end :: position

datatype node =
  Node (ntype: string) (nloc: "source_location option")
       (props: "(string \<times> jsval) list") (kids: "(string \<times> node) list")

definition get_prop :: "node \<Rightarrow> string \<Rightarrow> jsval option" where
  "get_prop n k = map_of (props n) k"

definition get_child :: "node \<Rightarrow> string \<Rightarrow> node option" where
  "get_child n k = map_of (kids n) k"

text \<open>The elements of a list-valued property, and \<open>x.property\<close> of a node that may be absent.\<close>

definition get_children :: "node \<Rightarrow> string \<Rightarrow> node list" where
  "get_children n k = map snd (filter (\<lambda>kc. fst kc = k) (kids n))"

definition property_of :: "node option \<Rightarrow> node option" where
  "property_of x = (case x of None \<Rightarrow> None | Some n \<Rightarrow> get_child n ''property'')"

text \<open>\<open>t.isX(x)\<close>: \<open>x\<close> is a node of type \<open>X\<close> (and not \<open>null\<close>).\<close>

definition isType :: "string \<Rightarrow> node option \<Rightarrow> bool" where
  "isType ty x = (case x of None \<Rightarrow> False | Some n \<Rightarrow> ntype n = ty)"

text \<open>\<open>x?.name\<close> and \<open>x?.value\<close>.\<close>

definition str_prop :: "string \<Rightarrow> node option \<Rightarrow> jsstring option" where
  "str_prop k x =
     (case x of None \<Rightarrow> None
      | Some n \<Rightarrow> (case get_prop n k of Some (JStr s) \<Rightarrow> Some s | _ \<Rightarrow> None))"

text \<open>\<open>t.isIdentifier(x, { name })\<close>.\<close>

definition isIdentifierNamed :: "jsstring \<Rightarrow> node option \<Rightarrow> bool" where
  "isIdentifierNamed name x \<longleftrightarrow> isType ''Identifier'' x \<and> str_prop ''name'' x = Some name"

text \<open>\<open>node.loc?.start.line || 0\<close> and \<open>node.loc?.start.column || 0\<close>.\<close>

definition start_line :: "node \<Rightarrow> nat" where
  "start_line n = (case nloc n of None \<Rightarrow> 0 | Some l \<Rightarrow> pos_line (loc_start l))"

definition start_column :: "node \<Rightarrow> nat" where
  "start_column n = (case nloc n of None \<Rightarrow> 0 | Some l \<Rightarrow> pos_column (loc_start l))"

text \<open>All nodes strictly below a node, in depth-first pre-order.\<close>

fun descendants :: "node \<Rightarrow> node list" where
  "descendants (Node t l ps ks) = concat (map (\<lambda>kc. snd kc # descendants (snd kc)) ks)"

text \<open>
  A traversal hands every visited node to the visitor as a path, which also knows the
  parent node.
\<close>

record path =
  pnode :: node
  parent :: "node option"

fun paths :: "node \<Rightarrow> path list" where
  "paths (Node t l ps ks) =
     concat (map (\<lambda>kc. \<lparr>pnode = snd kc, parent = Some (Node t l ps ks)\<rparr> # paths (snd kc)) ks)"

text \<open>
  \<open>traverse(ast, visitor)\<close> and \<open>path.traverse(visitor)\<close>: the visitor is run on every node
  below the start node, in pre-order, threading the state that the visitor's closures
  mutate. The start node itself is not visited; for the trees that the parser returns it
  is the File node.
\<close>

definition traverse :: "(path \<Rightarrow> 's \<Rightarrow> 's) \<Rightarrow> node \<Rightarrow> 's \<Rightarrow> 's" where
  "traverse visitor ast s = fold visitor (paths ast) s"

text \<open>A visitor that throws ends the traversal with its exception.\<close>

definition traverse_throwing ::
  "(path \<Rightarrow> 's \<Rightarrow> js_error + 's) \<Rightarrow> node \<Rightarrow> 's \<Rightarrow> js_error + 's" where
  "traverse_throwing visitor ast s =
     fold (\<lambda>p r. case r of Inl err \<Rightarrow> Inl err | Inr s \<Rightarrow> visitor p s) (paths ast) (Inr s)"

text \<open>
  \<open>traverse(node, visitor)\<close> called on a node directly, with no scope and no parent path:
  the library takes a File or a Program node and throws on any other start node.
\<close>

definition scope_error :: "string \<Rightarrow> js_error" where
  "scope_error ty =
     \<lparr>err_message =
        js (''You must pass a scope and parentPath unless traversing a Program/File. ''
            @ ''Instead of that you tried to traverse a '' @ ty
            @ '' node without passing scope and parentPath.''),
      err_loc = None\<rparr>"

definition traverse_checked ::
  "(path \<Rightarrow> 's \<Rightarrow> js_error + 's) \<Rightarrow> node \<Rightarrow> 's \<Rightarrow> js_error + 's" where
  "traverse_checked visitor start s =
     (if ntype start = ''Program'' \<or> ntype start = ''File''
      then traverse_throwing visitor start s else Inl (scope_error (ntype start)))"

section \<open>Issues and results\<close>

text \<open>
  The records of the engine's interface. Field names carry a prefix, since several of
  them (\<open>issues\<close>, \<open>code\<close>, \<open>filePath\<close>, \<open>metrics\<close>, \<open>complexity\<close>) are also names of
  variables in the functions below.
\<close>

datatype IssueSeverity = Error | Warning | Info

record CodeIssue =
  i_type :: jsstring
  i_severity :: IssueSeverity
  i_message :: jsstring
  i_line :: nat
  i_column :: nat
  i_filePath :: jsstring
  i_code :: "jsstring option"

record FileMetrics =
  m_linesOfCode :: nat
  m_complexity :: "nat option"
  m_functions :: "nat option"
  m_classes :: "nat option"
  m_imports :: "nat option"

record FileAnalysis =
  fa_filePath :: jsstring
  fa_issues :: "CodeIssue list"
  fa_metrics :: FileMetrics

record MetricsData =
  totalLinesOfCode :: nat
  averageComplexity :: rat
  totalFunctions :: nat
  totalClasses :: nat
  maintainabilityIndex :: rat
  issueBreakdown :: "IssueSeverity \<Rightarrow> nat"

record AnalysisResult =
  r_projectPath :: jsstring
  r_totalFiles :: nat
  r_analyzedFiles :: nat
  r_issues :: "CodeIssue list"
  r_metrics :: MetricsData
  r_fileAnalyses :: "FileAnalysis list"
  r_duration :: int
  r_timestamp :: int

section \<open>Numbers\<close>

text \<open>
  The engine computes with double-precision numbers, and two of its results are obtained
  by rounding such numbers to integers: the progress percentage and the two-decimal
  metrics. The rounding of the arithmetic operations decides which integer comes out, so
  the operations are modelled as the language defines them: the exact result, rounded to
  the nearest number with a 53-bit significand, a tie going to the even significand. A
  double is represented by the rational number it denotes. The numbers that occur are
  far from overflow and from the subnormal numbers, which are not modelled, as are
  infinities and NaN.
\<close>

text \<open>\<open>Math.round\<close>: the nearest integer, a tie going up.\<close>

definition Math_round :: "rat \<Rightarrow> int" where
  "Math_round x = \<lfloor>x + 1 / 2\<rfloor>"

text \<open>The binary exponent of a positive rational: \<open>2 ^ expo x \<le> x < 2 ^ (expo x + 1)\<close>.\<close>

definition expo :: "rat \<Rightarrow> int" where
  "expo x = (let d = int (floorlog 2 (nat (fst (quotient_of x))))
                     - int (floorlog 2 (nat (snd (quotient_of x))))
             in if 2 powi d \<le> x then d else d - 1)"

text \<open>Rounding to the nearest integer, a tie going to the even one.\<close>

definition rne :: "rat \<Rightarrow> int" where
  "rne m = (let f = \<lfloor>m\<rfloor>; r = m - of_int f in
            if r < 1 / 2 then f else if 1 / 2 < r then f + 1
            else if even f then f else f + 1)"

definition to_double :: "rat \<Rightarrow> rat" where
  "to_double x =
     (if x = 0 then 0
      else let ulp = 2 powi (expo \<bar>x\<bar> - 52)
           in sgn x * of_int (rne (\<bar>x\<bar> / ulp)) * ulp)"

definition double_add :: "rat \<Rightarrow> rat \<Rightarrow> rat" where
  "double_add a b = to_double (a + b)"

definition double_sub :: "rat \<Rightarrow> rat \<Rightarrow> rat" where
  "double_sub a b = to_double (a - b)"

definition double_div :: "rat \<Rightarrow> rat \<Rightarrow> rat" where
  "double_div a b = to_double (a / b)"

definition double_mul :: "rat \<Rightarrow> rat \<Rightarrow> rat" where
  "double_mul a b = to_double (a * b)"

text \<open>\<open>Math.round(((i + 1) / totalFiles) * 100)\<close>\<close>

definition progress_pct :: "nat \<Rightarrow> nat \<Rightarrow> int" where
  "progress_pct i totalFiles =
     Math_round (double_mul (double_div (of_nat (i + 1)) (of_nat totalFiles)) 100)"

text \<open>The specification's \<open>round(100 * completedCount / totalFiles)\<close>.\<close>

definition spec_pct :: "nat \<Rightarrow> nat \<Rightarrow> int" where
  "spec_pct completedCount totalFiles =
     Math_round (100 * of_nat completedCount / of_nat totalFiles)"

section \<open>Collaborators of the engine\<close>

record LintMessage =
  lm_severity :: int
  lm_message :: jsstring
  lm_line :: "nat option"
  lm_column :: "nat option"
  lm_ruleId :: "jsstring option"

record LintResult =
  lr_messages :: "LintMessage list"

type_synonym linter = "jsstring \<Rightarrow> jsstring \<Rightarrow> js_error + LintResult list"

type_synonym detector = "node \<Rightarrow> jsstring \<Rightarrow> jsstring \<Rightarrow> js_error + CodeIssue list"

text \<open>
  A directory as \<open>readdir\<close> shows it, with the listing of every subdirectory
  (\<open>None\<close> where reading it fails).
\<close>

datatype dirent = FileEntry jsstring | DirEntry jsstring "dirent list option"

fun ent_name :: "dirent \<Rightarrow> jsstring" where
  "ent_name (FileEntry name) = name"
| "ent_name (DirEntry name sub) = name"

text \<open>
  What the engine and its detectors call and do not define: the file system, the path
  library, the parser, the constructor of the linter and the linter it returns, the four
  detectors and the complexity calculator the engine holds (each of which may throw), the
  clock, and from the language the logarithms (whose last digits depend on the
  implementation), the lower-casing of strings (a table of the Unicode standard) and the
  matching of the two regular expressions of the security detector, the one for nested
  and the one for repeated quantifiers. Constructing the linter may throw, as it does when
  a plug-in that the configuration names cannot be resolved. The log is not modelled:
  nothing the engine returns depends on it.
\<close>

text \<open>
  The part of the linter's configuration that depends on the framework (the environment
  and the source type are the same for all).
\<close>

record ESLintConfig =
  cfg_extends :: "jsstring list"
  cfg_plugins :: "jsstring list"
  cfg_ecmaVersion :: nat
  cfg_jsx :: bool

record env =
  readFile :: "jsstring \<Rightarrow> js_error + jsstring"
  readdir_tree :: "jsstring \<Rightarrow> dirent list option"
  path_join :: "jsstring \<Rightarrow> jsstring \<Rightarrow> jsstring"
  path_relative :: "jsstring \<Rightarrow> jsstring \<Rightarrow> jsstring"
  parse :: "jsstring \<Rightarrow> js_error + node"
  new_ESLint :: "ESLintConfig \<Rightarrow> js_error + linter"
  syntaxDetector :: detector
  logicDetector :: detector
  performanceDetector :: detector
  securityDetector :: detector
  complexityCalculator :: "node \<Rightarrow> js_error + nat"
  Math_log :: "rat \<Rightarrow> rat"
  Math_log2 :: "rat \<Rightarrow> rat"
  String_toLowerCase :: "jsstring \<Rightarrow> jsstring"
  RegExp_test_nested :: "jsstring \<Rightarrow> bool"
  RegExp_test_repeated :: "jsstring \<Rightarrow> bool"
  Date_now_start :: int
  Date_now_end :: int
  new_Date :: int

text \<open>
  The progress callback: it is given the percentage, may change the caller's state, and
  returns or throws.
\<close>

type_synonym 's progress_callback = "int \<Rightarrow> 's \<Rightarrow> (js_error + unit) \<times> 's"

section \<open>ComplexityCalculator\<close>

definition complexityVisitor :: "path \<Rightarrow> nat \<Rightarrow> nat" where
  "complexityVisitor p complexity =
     (let n = pnode p; t = ntype n in
      if t = ''IfStatement'' then complexity + 1
      else if t = ''SwitchCase'' then
        (if get_child n ''test'' \<noteq> None then complexity + 1 else complexity)
      else if t = ''ForStatement'' then complexity + 1
      else if t = ''ForInStatement'' then complexity + 1
      else if t = ''ForOfStatement'' then complexity + 1
      else if t = ''WhileStatement'' then complexity + 1
      else if t = ''DoWhileStatement'' then complexity + 1
      else if t = ''CatchClause'' then complexity + 1
      else if t = ''ConditionalExpression'' then complexity + 1
      else if t = ''LogicalExpression'' then
        (if get_prop n ''operator'' = Some (JStr (js ''||''))
            \<or> get_prop n ''operator'' = Some (JStr (js ''&&''))
         then complexity + 1 else complexity)
      else complexity)"

definition calculate :: "node \<Rightarrow> nat" where
  "calculate ast = traverse complexityVisitor ast 1"

text \<open>The decision points as the specification lists them.\<close>

definition decision_point :: "node \<Rightarrow> bool" where
  "decision_point n \<longleftrightarrow>
     ntype n = ''IfStatement''
   \<or> (ntype n = ''SwitchCase'' \<and> get_child n ''test'' \<noteq> None)
   \<or> ntype n \<in> {''ForStatement'', ''ForInStatement'', ''ForOfStatement''}
   \<or> ntype n = ''WhileStatement''
   \<or> ntype n = ''DoWhileStatement''
   \<or> ntype n = ''CatchClause''
   \<or> ntype n = ''ConditionalExpression''
   \<or> (ntype n = ''LogicalExpression''
        \<and> get_prop n ''operator'' \<in> {Some (JStr (js ''&&'')), Some (JStr (js ''||''))})"

text \<open>The whole tree: the root and everything below it.\<close>

definition nodes :: "node \<Rightarrow> node list" where
  "nodes ast = ast # descendants ast"

section \<open>PerformanceDetector\<close>

text \<open>U+2014, the dash of the detector's messages.\<close>

definition em_dash :: jsstring where
  "em_dash = [0x2014]"

text \<open>
  The visitor that the \<open>ForStatement\<close> handler runs below its own node. Its state is
  the pair of \<open>nestedLoopCount\<close> and \<open>hasStringConcat\<close>. The source compares the two
  path objects by identity; paths are values here and are compared as such.
\<close>

definition forInnerVisitor :: "path \<Rightarrow> path \<Rightarrow> nat \<times> bool \<Rightarrow> nat \<times> bool" where
  "forInnerVisitor outer innerPath st =
     (let nestedLoopCount = fst st; hasStringConcat = snd st; t = ntype (pnode innerPath) in
      if t = ''ForStatement'' then
        (if innerPath \<noteq> outer then nestedLoopCount + 1 else nestedLoopCount, hasStringConcat)
      else if t = ''WhileStatement'' then (nestedLoopCount + 1, hasStringConcat)
      else if t = ''BinaryExpression'' then
        (nestedLoopCount,
         if get_prop (pnode innerPath) ''operator'' = Some (JStr (js ''+'')) then True
         else hasStringConcat)
      else (nestedLoopCount, hasStringConcat))"

definition nestedLoopsIssue :: "jsstring \<Rightarrow> node \<Rightarrow> nat \<Rightarrow> CodeIssue" where
  "nestedLoopsIssue fp n nestedLoopCount =
     \<lparr>i_type = js ''performance'', i_severity = Warning,
      i_message = js ''O(n^'' @ decimal (nestedLoopCount + 1) @ js '') complexity detected ''
                @ em_dash @ js '' consider optimization'',
      i_line = start_line n, i_column = start_column n, i_filePath = fp,
      i_code = Some (js ''NESTED_LOOPS'')\<rparr>"

definition stringConcatIssue :: "jsstring \<Rightarrow> node \<Rightarrow> CodeIssue" where
  "stringConcatIssue fp n =
     \<lparr>i_type = js ''performance'', i_severity = Info,
      i_message = js ''String concatenation in loop '' @ em_dash
                @ js '' use array.join() or template literals'',
      i_line = start_line n, i_column = start_column n, i_filePath = fp,
      i_code = Some (js ''STRING_CONCAT_LOOP'')\<rparr>"

definition perfForStatement :: "jsstring \<Rightarrow> path \<Rightarrow> CodeIssue list \<Rightarrow> CodeIssue list" where
  "perfForStatement fp p issues =
     (let st = traverse (forInnerVisitor p) (pnode p) (0, False);
          nestedLoopCount = fst st; hasStringConcat = snd st;
          issues = (if 2 \<le> nestedLoopCount
                    then issues @ [nestedLoopsIssue fp (pnode p) nestedLoopCount] else issues);
          issues = (if hasStringConcat
                    then issues @ [stringConcatIssue fp (pnode p)] else issues)
      in issues)"

text \<open>The \<open>CallExpression\<close> handler: \<open>forEach\<close> with \<open>push\<close>, and chained iterations.\<close>

definition pushVisitor :: "path \<Rightarrow> bool \<Rightarrow> bool" where
  "pushVisitor innerPath hasPush =
     (let n = pnode innerPath in
      if ntype n = ''CallExpression'' \<and> isType ''MemberExpression'' (get_child n ''callee'')
         \<and> (case get_child n ''callee'' of None \<Rightarrow> False
             | Some c \<Rightarrow> str_prop ''name'' (get_child c ''property'') = Some (js ''push''))
      then True else hasPush)"

definition perfCallExpression :: "jsstring \<Rightarrow> path \<Rightarrow> CodeIssue list \<Rightarrow> CodeIssue list" where
  "perfCallExpression fp p issues =
     (let n = pnode p in
      case get_child n ''callee'' of
        None \<Rightarrow> issues
      | Some callee \<Rightarrow>
          if ntype callee \<noteq> ''MemberExpression'' then issues
          else
            let methodName = (case str_prop ''name'' (get_child callee ''property'') of
                                None \<Rightarrow> [] | Some s \<Rightarrow> s);
                issues =
                  (if methodName = js ''forEach'' \<and> traverse pushVisitor n False
                   then issues @
                     [\<lparr>i_type = js ''performance'', i_severity = Info,
                       i_message = js ''Use .map() instead of .forEach() with .push()'',
                       i_line = start_line n, i_column = start_column n, i_filePath = fp,
                       i_code = Some (js ''INEFFICIENT_ARRAY_METHOD'')\<rparr>]
                   else issues);
                issues =
                  (if methodName \<in> set [js ''map'', js ''filter'', js ''reduce'']
                      \<and> isType ''CallExpression'' (parent p)
                      \<and> (case parent p of None \<Rightarrow> False
                          | Some pn \<Rightarrow> isType ''MemberExpression'' (get_child pn ''callee''))
                   then issues @
                     [\<lparr>i_type = js ''performance'', i_severity = Info,
                       i_message = js ''Multiple array iterations detected '' @ em_dash
                                 @ js '' consider combining operations'',
                       i_line = start_line n, i_column = start_column n, i_filePath = fp,
                       i_code = Some (js ''MULTIPLE_ITERATIONS'')\<rparr>]
                   else issues)
            in issues)"

text \<open>
  The \<open>FunctionDeclaration\<close> handler: synchronous file-system calls in an async
  function, and functions of more than 50 lines.
\<close>

definition syncVisitor :: "path \<Rightarrow> bool \<Rightarrow> bool" where
  "syncVisitor innerPath hasSyncOperation =
     (let n = pnode innerPath in
      if ntype n = ''CallExpression''
         \<and> (case get_child n ''callee'' of None \<Rightarrow> False
             | Some c \<Rightarrow> ntype c = ''MemberExpression''
                 \<and> isIdentifierNamed (js ''fs'') (get_child c ''object'')
                 \<and> (case str_prop ''name'' (get_child c ''property'') of
                       None \<Rightarrow> False | Some s \<Rightarrow> endsWith s (js ''Sync'')))
      then True else hasSyncOperation)"

definition perfFunctionDeclaration ::
  "jsstring \<Rightarrow> path \<Rightarrow> CodeIssue list \<Rightarrow> CodeIssue list" where
  "perfFunctionDeclaration fp p issues =
     (let n = pnode p in
      case nloc n of
        None \<Rightarrow> issues
      | Some loc \<Rightarrow>
          let issues =
                (if get_prop n ''async'' = Some (JBool True) \<and> traverse syncVisitor n False
                 then issues @
                   [\<lparr>i_type = js ''performance'', i_severity = Warning,
                     message =
                       js ''Synchronous operation in async function blocks the event loop'',
                     i_line = pos_line (loc_start loc), i_column = pos_column (loc_start loc),
                     i_filePath = fp, i_code = Some (js ''SYNC_IN_ASYNC'')\<rparr>]
                 else issues);
              lines = int (pos_line (loc_end loc)) - int (pos_line (loc_start loc));
              issues =
                (if 50 < lines
                 then issues @
                   [\<lparr>i_type = js ''performance'', i_severity = Info,
                     i_message = js ''Large function ('' @ decimal (nat lines) @ js '' lines) ''
                               @ em_dash @ js '' consider refactoring'',
                     i_line = pos_line (loc_start loc), i_column = pos_column (loc_start loc),
                     i_filePath = fp, i_code = Some (js ''LARGE_FUNCTION'')\<rparr>]
                 else issues)
          in issues)"

definition perfVisitor :: "jsstring \<Rightarrow> path \<Rightarrow> CodeIssue list \<Rightarrow> CodeIssue list" where
  "perfVisitor fp p issues =
     (let t = ntype (pnode p) in
      if t = ''ForStatement'' then perfForStatement fp p issues
      else if t = ''CallExpression'' then perfCallExpression fp p issues
      else if t = ''FunctionDeclaration'' then perfFunctionDeclaration fp p issues
      else issues)"

definition PerformanceDetector_detect :: "node \<Rightarrow> jsstring \<Rightarrow> jsstring \<Rightarrow> CodeIssue list" where
  "PerformanceDetector_detect ast code filePath = traverse (perfVisitor filePath) ast []"

text \<open>
  What the handler counts below a \<open>for\<close> statement, and what the specification calls a
  loop construct.
\<close>

definition counted_loop :: "node \<Rightarrow> bool" where
  "counted_loop n \<longleftrightarrow> ntype n = ''ForStatement'' \<or> ntype n = ''WhileStatement''"

definition nestedCount :: "node \<Rightarrow> nat" where
  "nestedCount n = length (filter counted_loop (descendants n))"

definition loop_construct :: "node \<Rightarrow> bool" where
  "loop_construct n \<longleftrightarrow>
     ntype n \<in> {''ForStatement'', ''ForInStatement'', ''ForOfStatement'',
                 ''WhileStatement'', ''DoWhileStatement''}"

definition has_code :: "string \<Rightarrow> CodeIssue \<Rightarrow> bool" where
  "has_code c i \<longleftrightarrow> i_code i = Some (js c)"

section \<open>SecurityDetector\<close>

text \<open>
  The security detector, with every exception of the source as a value: reading the name
  of an identifier node that has none is a type error, and a traversal started on a bare
  node throws.
\<close>

definition securityIssue ::
  "IssueSeverity \<Rightarrow> string \<Rightarrow> string \<Rightarrow> jsstring \<Rightarrow> node \<Rightarrow> CodeIssue" where
  "securityIssue severity message c fp n =
     \<lparr>i_type = js ''security'', i_severity = severity, i_message = js message,
      i_line = start_line n, i_column = start_column n, i_filePath = fp,
      i_code = Some (js c)\<rparr>"

definition evalIssue :: "jsstring \<Rightarrow> node \<Rightarrow> CodeIssue" where
  "evalIssue =
     securityIssue Error ''Use of eval() is dangerous and should be avoided'' ''DANGEROUS_EVAL''"

definition sqlInjectionIssue :: "jsstring \<Rightarrow> node \<Rightarrow> CodeIssue" where
  "sqlInjectionIssue =
     securityIssue Error ''Potential SQL injection - use parameterized queries''
       ''SQL_INJECTION''"

definition commandInjectionIssue :: "jsstring \<Rightarrow> node \<Rightarrow> CodeIssue" where
  "commandInjectionIssue =
     securityIssue Error ''Command execution with user input - validate and sanitize''
       ''COMMAND_INJECTION''"

definition hardcodedSecretIssue :: "jsstring \<Rightarrow> node \<Rightarrow> CodeIssue" where
  "hardcodedSecretIssue =
     securityIssue Error ''Hardcoded secret detected - use environment variables''
       ''HARDCODED_SECRET''"

definition redosIssue :: "jsstring \<Rightarrow> node \<Rightarrow> CodeIssue" where
  "redosIssue =
     securityIssue Warning ''Regular expression may be vulnerable to ReDoS attacks''
       ''REDOS_VULNERABILITY''"

definition xssIssue :: "jsstring \<Rightarrow> node \<Rightarrow> CodeIssue" where
  "xssIssue =
     securityIssue Warning ''innerHTML usage can lead to XSS - use textContent or sanitize''
       ''XSS_RISK''"

text \<open>\<open>x.name.toLowerCase()\<close>.\<close>

definition name_toLowerCase :: "env \<Rightarrow> node option \<Rightarrow> js_error + jsstring" where
  "name_toLowerCase e x =
     (case str_prop ''name'' x of
        None \<Rightarrow> Inl type_error
      | Some name \<Rightarrow> Inr (String_toLowerCase e name))"

text \<open>\<open>names.includes(x.name.toLowerCase())\<close>.\<close>

definition lowered_name_in :: "env \<Rightarrow> string list \<Rightarrow> node option \<Rightarrow> js_error + bool" where
  "lowered_name_in e names x =
     (case name_toLowerCase e x of
        Inl err \<Rightarrow> Inl err
      | Inr name \<Rightarrow> Inr (name \<in> set (map js names)))"

definition isSQLQuery :: "env \<Rightarrow> node \<Rightarrow> js_error + bool" where
  "isSQLQuery e n =
     (let callee = get_child n ''callee'' in
      if isType ''Identifier'' callee
      then lowered_name_in e [''query'', ''execute'', ''raw''] callee
      else if isType ''MemberExpression'' callee \<and> isType ''Identifier'' (property_of callee)
      then lowered_name_in e [''query'', ''execute'', ''raw''] (property_of callee)
      else Inr False)"

definition isCommandExecution :: "env \<Rightarrow> node \<Rightarrow> js_error + bool" where
  "isCommandExecution e n =
     (let callee = get_child n ''callee'' in
      if isType ''Identifier'' callee
      then lowered_name_in e [''exec'', ''spawn'', ''execSync'', ''spawnSync''] callee
      else if isType ''MemberExpression'' callee \<and> isType ''Identifier'' (property_of callee)
      then lowered_name_in e [''exec'', ''spawn'', ''execsync'', ''spawnsync'']
             (property_of callee)
      else Inr False)"

text \<open>
  \<open>containsUserInput\<close>: the visitor of the traversal below the call, threading
  \<open>hasInput\<close>, and the traversal, which starts from the path of the call.
\<close>

definition userInputVisitor :: "env \<Rightarrow> path \<Rightarrow> bool \<Rightarrow> js_error + bool" where
  "userInputVisitor e innerPath hasInput =
     (let n = pnode innerPath in
      if ntype n = ''MemberExpression'' then
        (let obj = get_child n ''object''; property = get_child n ''property'' in
         case (if isIdentifierNamed (js ''req'') obj \<and> isType ''Identifier'' property
               then lowered_name_in e [''body'', ''params'', ''query''] property
               else Inr False) of
           Inl err \<Rightarrow> Inl err
         | Inr fromReq \<Rightarrow>
             (case (if isType ''Identifier'' property
                    then lowered_name_in e [''body'', ''params'', ''query''] property
                    else Inr False) of
                Inl err \<Rightarrow> Inl err
              | Inr fromChain \<Rightarrow> Inr (hasInput \<or> fromReq \<or> fromChain)))
      else if ntype n = ''Identifier'' then
        (case lowered_name_in e
                [''body'', ''params'', ''query'', ''username'', ''email'', ''password'']
                (Some n) of
           Inl err \<Rightarrow> Inl err
         | Inr userName \<Rightarrow> Inr (hasInput \<or> userName))
      else Inr hasInput)"

definition containsUserInput :: "env \<Rightarrow> path \<Rightarrow> js_error + bool" where
  "containsUserInput e p = traverse_throwing (userInputVisitor e) (pnode p) False"

text \<open>
  \<open>nodeContainsUserInput\<close>: the visitor threads \<open>found\<close>; once it is set the traversal has
  been stopped and no further node is looked at. The traversal is started on the
  argument node itself.
\<close>

definition foundVisitor :: "env \<Rightarrow> path \<Rightarrow> bool \<Rightarrow> js_error + bool" where
  "foundVisitor e innerPath found =
     (let n = pnode innerPath in
      if found then Inr True
      else if ntype n = ''MemberExpression'' then
        (let obj = get_child n ''object''; property = get_child n ''property'' in
         if isIdentifierNamed (js ''req'') obj \<and> isType ''Identifier'' property
         then lowered_name_in e [''body'', ''params'', ''query''] property
         else Inr False)
      else if ntype n = ''Identifier'' then
        lowered_name_in e
          [''body'', ''params'', ''query'', ''username'', ''password'', ''token''] (Some n)
      else Inr False)"

definition nodeContainsUserInput :: "env \<Rightarrow> node \<Rightarrow> js_error + bool" where
  "nodeContainsUserInput e n = traverse_checked (foundVisitor e) n False"

text \<open>\<open>xs.some(f)\<close>, for an \<open>f\<close> that may throw.\<close>

fun some_throwing :: "('a \<Rightarrow> js_error + bool) \<Rightarrow> 'a list \<Rightarrow> js_error + bool" where
  "some_throwing f [] = Inr False"
| "some_throwing f (x # xs) =
     (case f x of
        Inl err \<Rightarrow> Inl err
      | Inr b \<Rightarrow> if b then Inr True else some_throwing f xs)"

definition hasReDoSVulnerability :: "env \<Rightarrow> jsstring \<Rightarrow> bool" where
  "hasReDoSVulnerability e pattern \<longleftrightarrow>
     RegExp_test_nested e pattern \<or> RegExp_test_repeated e pattern"

text \<open>The four handlers of the visitor of \<open>detect\<close>.\<close>

definition secCallExpression ::
  "env \<Rightarrow> jsstring \<Rightarrow> path \<Rightarrow> CodeIssue list \<Rightarrow> js_error + CodeIssue list" where
  "secCallExpression e fp p issues =
     (let n = pnode p;
          issues1 = (if isIdentifierNamed (js ''eval'') (get_child n ''callee'')
                     then issues @ [evalIssue fp n] else issues)
      in case isSQLQuery e n of
           Inl err \<Rightarrow> Inl err
         | Inr sql \<Rightarrow>
             (case (if sql then containsUserInput e p else Inr False) of
                Inl err \<Rightarrow> Inl err
              | Inr hasUserInput \<Rightarrow>
                  (let issues2 = (if hasUserInput then issues1 @ [sqlInjectionIssue fp n]
                                  else issues1)
                   in case isCommandExecution e n of
                        Inl err \<Rightarrow> Inl err
                      | Inr cmd \<Rightarrow>
                          (case (if cmd
                                 then some_throwing (nodeContainsUserInput e)
                                        (get_children n ''arguments'')
                                 else Inr False) of
                             Inl err \<Rightarrow> Inl err
                           | Inr usesUserInput \<Rightarrow>
                               Inr (if usesUserInput
                                    then issues2 @ [commandInjectionIssue fp n]
                                    else issues2)))))"

definition secVariableDeclarator ::
  "env \<Rightarrow> jsstring \<Rightarrow> path \<Rightarrow> CodeIssue list \<Rightarrow> js_error + CodeIssue list" where
  "secVariableDeclarator e fp p issues =
     (let n = pnode p; ident = get_child n ''id''; init = get_child n ''init'' in
      if \<not> isType ''StringLiteral'' init then Inr issues
      else if \<not> isType ''Identifier'' ident then Inr issues
      else
        case name_toLowerCase e ident of
          Inl err \<Rightarrow> Inl err
        | Inr varName \<Rightarrow>
            let val = (case str_prop ''value'' init of None \<Rightarrow> [] | Some v \<Rightarrow> v)
            in if (js_includes varName (js ''password'') \<or> js_includes varName (js ''secret'')
                   \<or> js_includes varName (js ''key'') \<or> js_includes varName (js ''token''))
                  \<and> 8 < length val
               then Inr (issues @ [hardcodedSecretIssue fp n])
               else Inr issues)"

definition secNewExpression ::
  "env \<Rightarrow> jsstring \<Rightarrow> path \<Rightarrow> CodeIssue list \<Rightarrow> CodeIssue list" where
  "secNewExpression e fp p issues =
     (let n = pnode p in
      if \<not> isIdentifierNamed (js ''RegExp'') (get_child n ''callee'') then issues
      else
        case get_children n ''arguments'' of
          [] \<Rightarrow> issues
        | firstArg # others \<Rightarrow>
            if ntype firstArg = ''StringLiteral''
               \<and> hasReDoSVulnerability e
                    (case str_prop ''value'' (Some firstArg) of
                       None \<Rightarrow> js ''undefined'' | Some pattern \<Rightarrow> pattern)
            then issues @ [redosIssue fp n]
            else issues)"

definition secAssignmentExpression ::
  "jsstring \<Rightarrow> path \<Rightarrow> CodeIssue list \<Rightarrow> CodeIssue list" where
  "secAssignmentExpression fp p issues =
     (let left = get_child (pnode p) ''left'' in
      if isType ''MemberExpression'' left \<and> isType ''Identifier'' (property_of left)
         \<and> str_prop ''name'' (property_of left) = Some (js ''innerHTML'')
      then issues @ [xssIssue fp (pnode p)]
      else issues)"

definition secVisitor ::
  "env \<Rightarrow> jsstring \<Rightarrow> path \<Rightarrow> CodeIssue list \<Rightarrow> js_error + CodeIssue list" where
  "secVisitor e fp p issues =
     (if ntype (pnode p) = ''CallExpression'' then secCallExpression e fp p issues
      else if ntype (pnode p) = ''VariableDeclarator'' then secVariableDeclarator e fp p issues
      else if ntype (pnode p) = ''NewExpression'' then Inr (secNewExpression e fp p issues)
      else if ntype (pnode p) = ''AssignmentExpression''
      then Inr (secAssignmentExpression fp p issues)
      else Inr issues)"

text \<open>\<open>SecurityDetector.detect\<close>; the code of the file is not looked at.\<close>

definition SecurityDetector_detect ::
  "env \<Rightarrow> node \<Rightarrow> jsstring \<Rightarrow> jsstring \<Rightarrow> js_error + CodeIssue list" where
  "SecurityDetector_detect e ast code fp = traverse_checked (secVisitor e fp) ast []"

section \<open>AnalysisEngine\<close>

subsection \<open>Helpers\<close>

definition skipped_names :: "jsstring list" where
  "skipped_names = [js ''node_modules'', js ''dist'', js ''build'', js ''.git'', js ''.next'']"

definition source_extensions :: "jsstring list" where
  "source_extensions =
     [js ''mjs'', js ''cjs'', js ''js'', js ''jsx'', js ''ts'', js ''tsx'', js ''vue'',
      js ''svelte'']"

text \<open>\<^verbatim>\<open>/\.(mjs|cjs|js|jsx|ts|tsx|vue|svelte)$/.test(name)\<close>\<close>

definition is_source_name :: "jsstring \<Rightarrow> bool" where
  "is_source_name name = list_ex (\<lambda>ext. endsWith name (js ''.'' @ ext)) source_extensions"

fun getJavaScriptFiles ::
  "(jsstring \<Rightarrow> jsstring \<Rightarrow> jsstring) \<Rightarrow> jsstring \<Rightarrow> dirent list option \<Rightarrow> jsstring list" where
  "getJavaScriptFiles join dir None = []"
| "getJavaScriptFiles join dir (Some entries) =
     concat (map (\<lambda>e.
        let full = join dir (ent_name e) in
        if ent_name e \<in> set skipped_names then []
        else (case e of
                DirEntry name sub \<Rightarrow> getJavaScriptFiles join full sub
              | FileEntry name \<Rightarrow> if is_source_name name then [full] else [])) entries)"

subsection \<open>Framework and source directory\<close>

definition baseConfig :: "jsstring \<Rightarrow> ESLintConfig" where
  "baseConfig framework =
     (if framework \<in> set [js ''react'', js ''next'', js ''reactnative'', js ''expo''] then
        \<lparr>cfg_extends = [js ''eslint:recommended'', js ''plugin:react/recommended''],
         cfg_plugins = [js ''react'', js ''react-hooks''], cfg_ecmaVersion = 2021,
         cfg_jsx = True\<rparr>
      else if framework \<in> set [js ''vue'', js ''nuxt''] then
        \<lparr>cfg_extends = [js ''plugin:vue/vue3-recommended''], cfg_plugins = [js ''vue''],
         cfg_ecmaVersion = 2021, cfg_jsx = False\<rparr>
      else if framework \<in> set [js ''angular'', js ''nest''] then
        \<lparr>cfg_extends = [js ''plugin:@typescript-eslint/recommended''],
         cfg_plugins = [js ''@typescript-eslint''], cfg_ecmaVersion = 2022, cfg_jsx = False\<rparr>
      else if framework = js ''svelte'' then
        \<lparr>cfg_extends = [js ''plugin:svelte/recommended''], cfg_plugins = [js ''svelte''],
         cfg_ecmaVersion = 2021, cfg_jsx = False\<rparr>
      else
        \<lparr>cfg_extends = [js ''eslint:recommended''], cfg_plugins = [], cfg_ecmaVersion = 2021,
         cfg_jsx = False\<rparr>)"

text \<open>
  \<open>initESLintForFramework\<close>: the value that it stores in the engine's \<open>eslint\<close> field, or
  the exception of the linter's constructor, which it does not catch.
\<close>

definition initESLintForFramework :: "env \<Rightarrow> jsstring \<Rightarrow> js_error + linter option" where
  "initESLintForFramework e framework =
     (case new_ESLint e (baseConfig framework) of
        Inl err \<Rightarrow> Inl err
      | Inr eslint \<Rightarrow> Inr (Some eslint))"

definition indicators :: "(jsstring \<times> jsstring list) list" where
  "indicators =
     [(js ''react'', [js ''App.js'', js ''App.tsx'', js ''package.json'']),
      (js ''next'', [js ''next.config.js'', js ''pages'']),
      (js ''nest'', [js ''nest-cli.json'', js ''main.ts'']),
      (js ''express'', [js ''server.js'', js ''app.js'']),
      (js ''vue'', [js ''App.vue'', js ''main.ts'']),
      (js ''angular'', [js ''angular.json'']),
      (js ''svelte'', [js ''App.svelte'', js ''svelte.config.js'']),
      (js ''nuxt'', [js ''nuxt.config.js'']),
      (js ''reactnative'', [js ''react-native.config.js'']),
      (js ''expo'', [js ''app.json'']),
      (js ''fullstack'', [js ''frontend'', js ''backend'', js ''client'', js ''server''])]"

text \<open>\<^verbatim>\<open>c.split('/')[0]\<close>\<close>

definition first_segment :: "jsstring \<Rightarrow> jsstring" where
  "first_segment c = (case split c 47 of [] \<Rightarrow> [] | seg # rest \<Rightarrow> seg)"

text \<open>\<^verbatim>\<open>/\.(ts|js|tsx|jsx|vue|svelte)$/.test(name)\<close>\<close>

definition has_code_extension :: "jsstring \<Rightarrow> bool" where
  "has_code_extension name =
     list_ex (\<lambda>ext. endsWith name (js ''.'' @ ext))
       [js ''ts'', js ''js'', js ''tsx'', js ''jsx'', js ''vue'', js ''svelte'']"

text \<open>
  The loop over the candidate directories, carrying \<open>framework\<close> and \<open>detectedDir\<close>. A
  directory that cannot be read is passed over; the loop ends at the first directory
  that holds a file with a code extension.
\<close>

fun detectLoop ::
  "env \<Rightarrow> jsstring list \<Rightarrow> jsstring \<times> jsstring \<Rightarrow> jsstring \<times> jsstring" where
  "detectLoop e [] st = st"
| "detectLoop e (dir # dirs) st =
     (case readdir_tree e dir of
        None \<Rightarrow> detectLoop e dirs st
      | Some ents \<Rightarrow>
          let entries = map ent_name ents;
              st = (case find (\<lambda>fc. list_ex (\<lambda>c. c \<in> set entries
                                                   \<or> first_segment c \<in> set entries) (snd fc))
                          indicators of
                      None \<Rightarrow> st
                    | Some fc \<Rightarrow> (fst fc, dir))
          in if list_ex has_code_extension entries then st else detectLoop e dirs st)"

definition detectFrameworkAndSource :: "env \<Rightarrow> jsstring \<Rightarrow> jsstring \<times> jsstring" where
  "detectFrameworkAndSource e basePath =
     detectLoop e
       [path_join e basePath (js ''src''), path_join e basePath (js ''frontend''),
        path_join e basePath (js ''backend''), path_join e basePath (js ''server''), basePath]
       (js ''node'', basePath)"

subsection \<open>Lint issues and counters\<close>

definition mapLintSeverity :: "int \<Rightarrow> IssueSeverity" where
  "mapLintSeverity s = (if s = 2 then Error else if s = 1 then Warning else Info)"

definition lintIssue :: "jsstring \<Rightarrow> LintMessage \<Rightarrow> CodeIssue" where
  "lintIssue rel msg =
     \<lparr>i_type = js ''lint'', i_severity = mapLintSeverity (lm_severity msg),
      i_message = lm_message msg,
      i_line = (case lm_line msg of None \<Rightarrow> 0 | Some l \<Rightarrow> l),
      i_column = (case lm_column msg of None \<Rightarrow> 0 | Some c \<Rightarrow> c),
      i_filePath = rel,
      i_code = Some (case lm_ruleId msg of None \<Rightarrow> js ''LINT_ERROR'' | Some r \<Rightarrow> r)\<rparr>"

definition lintIssues :: "jsstring \<Rightarrow> LintResult list \<Rightarrow> CodeIssue list" where
  "lintIssues rel results = concat (map (\<lambda>r. map (lintIssue rel) (lr_messages r)) results)"

definition safeComplexity :: "env \<Rightarrow> node \<Rightarrow> nat" where
  "safeComplexity e ast = (case complexityCalculator e ast of Inl err \<Rightarrow> 0 | Inr c \<Rightarrow> c)"

definition countFunctions :: "node \<Rightarrow> nat" where
  "countFunctions ast =
     traverse (\<lambda>p n. if ntype (pnode p) = ''FunctionDeclaration'' then n + 1
                      else if ntype (pnode p) = ''ArrowFunctionExpression'' then n + 1
                      else if ntype (pnode p) = ''FunctionExpression'' then n + 1
                      else n) ast 0"

definition countClasses :: "node \<Rightarrow> nat" where
  "countClasses ast =
     traverse (\<lambda>p n. if ntype (pnode p) = ''ClassDeclaration'' then n + 1 else n) ast 0"

definition countImports :: "node \<Rightarrow> nat" where
  "countImports ast =
     traverse (\<lambda>p n. if ntype (pnode p) = ''ImportDeclaration'' then n + 1 else n) ast 0"

subsection \<open>One file\<close>

text \<open>One round of the loop over the detectors: a detector that throws adds nothing.\<close>

definition runDetector ::
  "node \<Rightarrow> jsstring \<Rightarrow> jsstring \<Rightarrow> detector \<Rightarrow> CodeIssue list \<Rightarrow> CodeIssue list" where
  "runDetector ast code rel detector issues =
     (case detector ast code rel of
        Inl err \<Rightarrow> issues
      | Inr found \<Rightarrow> if length found \<noteq> 0 then issues @ found else issues)"

definition analyzeFile :: "env \<Rightarrow> linter option \<Rightarrow> jsstring \<Rightarrow> jsstring \<Rightarrow> FileAnalysis" where
  "analyzeFile e eslint filePath rootDir =
     (let rel = path_relative e rootDir filePath in
      case readFile e filePath of
        Inl err \<Rightarrow>
          \<lparr>fa_filePath = rel,
           fa_issues = [\<lparr>i_type = js ''io'', i_severity = Error,
                         i_message = js ''Failed to read file'', i_line = 0, i_column = 0,
                         i_filePath = rel, i_code = None\<rparr>],
           fa_metrics = \<lparr>m_linesOfCode = 0, m_complexity = None, m_functions = None,
                          m_classes = None, m_imports = None\<rparr>\<rparr>
      | Inr code \<Rightarrow>
          (case parse e code of
             Inl err \<Rightarrow>
               \<lparr>fa_filePath = rel,
                fa_issues = [\<lparr>i_type = js ''syntax'', i_severity = Error,
                              i_message = err_message err,
                              i_line = (case err_loc err of None \<Rightarrow> 0 | Some l \<Rightarrow> pos_line l),
                              i_column = (case err_loc err of None \<Rightarrow> 0
                                          | Some l \<Rightarrow> pos_column l),
                              i_filePath = rel, i_code = Some (js ''PARSE_ERROR'')\<rparr>],
                fa_metrics = \<lparr>m_linesOfCode = length (split code newline),
                               m_complexity = None, m_functions = None,
                               m_classes = None, m_imports = None\<rparr>\<rparr>
           | Inr ast \<Rightarrow>
               let issues = [];
                   issues = (case eslint of
                               None \<Rightarrow> issues
                             | Some lintText \<Rightarrow>
                                 (case lintText code filePath of
                                    Inl err \<Rightarrow> issues
                                  | Inr results \<Rightarrow> issues @ lintIssues rel results));
                   issues = fold (runDetector ast code rel)
                              [syntaxDetector e, logicDetector e, performanceDetector e,
                               securityDetector e] issues;
                   metrics = \<lparr>m_linesOfCode = length (split code newline),
                               m_complexity = Some (safeComplexity e ast),
                               m_functions = Some (countFunctions ast),
                               m_classes = Some (countClasses ast),
                               m_imports = Some (countImports ast)\<rparr>
               in \<lparr>fa_filePath = rel, fa_issues = issues, fa_metrics = metrics\<rparr>))"

subsection \<open>Project metrics\<close>

text \<open>
  \<^verbatim>\<open>raw = ((171 - 5.2 * Math.log(loc * Math.log2(loc + 1)) - 0.23 * c) * 100) / 171\<close>
\<close>

definition calculateMaintainabilityIndex :: "env \<Rightarrow> rat \<Rightarrow> rat \<Rightarrow> rat" where
  "calculateMaintainabilityIndex e c loc =
     (if loc = 0 then 0
      else let raw =
                 double_div
                   (double_mul
                      (double_sub
                         (double_sub 171
                            (double_mul (to_double (52 / 10))
                               (Math_log e (double_mul loc (Math_log2 e (double_add loc 1))))))
                         (double_mul (to_double (23 / 100)) c))
                      100)
                   171
           in max 0 (min 100 (double_div (of_int (Math_round (double_mul raw 100))) 100)))"

record totals =
  t_loc :: nat
  t_cx :: nat
  t_fn :: nat
  t_cl :: nat
  t_issues :: "IssueSeverity \<Rightarrow> nat"

definition opt0 :: "nat option \<Rightarrow> nat" where
  "opt0 x = (case x of None \<Rightarrow> 0 | Some v \<Rightarrow> v)"

definition addFile :: "FileAnalysis \<Rightarrow> totals \<Rightarrow> totals" where
  "addFile f t =
     \<lparr>t_loc = t_loc t + m_linesOfCode (fa_metrics f),
      t_cx = t_cx t + opt0 (m_complexity (fa_metrics f)),
      t_fn = t_fn t + opt0 (m_functions (fa_metrics f)),
      t_cl = t_cl t + opt0 (m_classes (fa_metrics f)),
      t_issues = fold (\<lambda>i c. c(i_severity i := c (i_severity i) + 1)) (fa_issues f)
                   (t_issues t)\<rparr>"

definition calculateMetrics :: "env \<Rightarrow> FileAnalysis list \<Rightarrow> MetricsData" where
  "calculateMetrics e files =
     (let t = fold addFile files
                \<lparr>t_loc = 0, t_cx = 0, t_fn = 0, t_cl = 0, t_issues = (\<lambda>s. 0)\<rparr>;
          avgCx = (if length files \<noteq> 0
                   then double_div (of_nat (t_cx t)) (of_nat (length files)) else 0)
      in \<lparr>totalLinesOfCode = t_loc t,
          averageComplexity = double_div (of_int (Math_round (double_mul avgCx 100))) 100,
          totalFunctions = t_fn t,
          totalClasses = t_cl t,
          maintainabilityIndex = calculateMaintainabilityIndex e avgCx (of_nat (t_loc t)),
          issueBreakdown = t_issues t\<rparr>)"

text \<open>
  The index of the specification's formula in exact arithmetic: the raw value, clamped to
  the interval, then rounded to two decimal places.
\<close>

definition spec_raw :: "real \<Rightarrow> real \<Rightarrow> real" where
  "spec_raw C L = ((171 - 5.2 * ln (L * log 2 (L + 1)) - 0.23 * C) * 100) / 171"

definition spec_index :: "real \<Rightarrow> real \<Rightarrow> real" where
  "spec_index C L =
     (if L = 0 then 0
      else of_int \<lfloor>max 0 (min 100 (spec_raw C L)) * 100 + 1 / 2\<rfloor> / 100)"

text \<open>
  The same with the formula evaluated as the language evaluates it: every operation in
  double precision, in the order in which the formula is written, the logarithms those
  of the implementation, and the rounding to two places done by \<open>Math.round\<close>.
\<close>

definition maintainability_raw :: "env \<Rightarrow> rat \<Rightarrow> rat \<Rightarrow> rat" where
  "maintainability_raw e C L =
     double_div
       (double_mul
          (double_sub
             (double_sub 171
                (double_mul (to_double (52 / 10))
                   (Math_log e (double_mul L (Math_log2 e (double_add L 1))))))
             (double_mul (to_double (23 / 100)) C))
          100)
       171"

definition clamp :: "rat \<Rightarrow> rat \<Rightarrow> rat \<Rightarrow> rat" where
  "clamp lo hi x = (if x < lo then lo else if hi < x then hi else x)"

definition round_2_places :: "rat \<Rightarrow> rat" where
  "round_2_places x = double_div (of_int (Math_round (double_mul x 100))) 100"

subsection \<open>The whole project\<close>

text \<open>
  The loop over the files, from index \<open>i\<close> on. Its state is the issue list, the list of
  file results and the state the callback works on. A callback that throws is caught,
  and the loop goes on.
\<close>

function analyzeLoop ::
  "env \<Rightarrow> linter option \<Rightarrow> jsstring list \<Rightarrow> jsstring \<Rightarrow> 's progress_callback option \<Rightarrow> nat
   \<Rightarrow> CodeIssue list \<times> FileAnalysis list \<times> 's \<Rightarrow> CodeIssue list \<times> FileAnalysis list \<times> 's" where
  "analyzeLoop e eslint files dir progressCallback i st =
     (let totalFiles = length files in
      if i < totalFiles then
        let allIssues = fst st; fileAnalyses = fst (snd st); s = snd (snd st);
            filePath = files ! i;
            analysis = analyzeFile e eslint filePath dir;
            fileAnalyses = fileAnalyses @ [analysis];
            allIssues = allIssues @ fa_issues analysis;
            s = (case progressCallback of
                   None \<Rightarrow> s
                 | Some callback \<Rightarrow>
                     (case callback (progress_pct i totalFiles) s of
                        (Inl err, s') \<Rightarrow> s'
                      | (Inr u, s') \<Rightarrow> s'))
        in analyzeLoop e eslint files dir progressCallback (i + 1) (allIssues, fileAnalyses, s)
      else st)"
  by pat_completeness auto
termination
  by (relation "measure (\<lambda>(e, eslint, files, dir, progressCallback, i, st). length files - i)")
     auto

declare analyzeLoop.simps [simp del]

text \<open>
  The run. The exception of \<open>initESLintForFramework\<close> is not caught: the run then fails
  with it, before any file is looked for.
\<close>

definition analyzeCodebase ::
  "env \<Rightarrow> jsstring \<Rightarrow> 's progress_callback option \<Rightarrow> 's \<Rightarrow> js_error + AnalysisResult \<times> 's" where
  "analyzeCodebase e projectPath progressCallback s =
     (let framework = fst (detectFrameworkAndSource e projectPath);
          dir = snd (detectFrameworkAndSource e projectPath)
      in case initESLintForFramework e framework of
           Inl err \<Rightarrow> Inl err
         | Inr eslint \<Rightarrow>
             let files = getJavaScriptFiles (path_join e) dir (readdir_tree e dir);
                 totalFiles = length files;
                 st = analyzeLoop e eslint files dir progressCallback 0 ([], [], s);
                 allIssues = fst st; fileAnalyses = fst (snd st);
                 metrics = calculateMetrics e fileAnalyses
             in Inr (\<lparr>r_projectPath = dir, r_totalFiles = totalFiles,
                      r_analyzedFiles = length fileAnalyses, r_issues = allIssues,
                      r_metrics = metrics, r_fileAnalyses = fileAnalyses,
                      r_duration = Date_now_end e - Date_now_start e,
                      r_timestamp = new_Date e\<rparr>,
                     snd (snd st)))"

text \<open>One call of the callback, as the loop makes it: whether it throws is of no account.\<close>

definition callback_step :: "'s progress_callback option \<Rightarrow> int \<Rightarrow> 's \<Rightarrow> 's" where
  "callback_step cb v s = (case cb of None \<Rightarrow> s | Some f \<Rightarrow> snd (f v s))"

section \<open>Example inputs\<close>

definition mk_identifier :: "string \<Rightarrow> node" where
  "mk_identifier name = Node ''Identifier'' None [(''name'', JStr (js name))] []"

definition mk_string_literal :: "string \<Rightarrow> node" where
  "mk_string_literal v = Node ''StringLiteral'' None [(''value'', JStr (js v))] []"

definition mk_block :: "node list \<Rightarrow> node" where
  "mk_block body = Node ''BlockStatement'' None [] (map (Pair ''body'') body)"

definition mk_file :: "node list \<Rightarrow> node" where
  "mk_file body = Node ''File'' None []
     [(''program'', Node ''Program'' None [(''sourceType'', JStr (js ''module''))]
                      (map (Pair ''body'') body))]"

text \<open>\<^verbatim>\<open>if (a) {} else if (b) {}\<close>\<close>

definition if_else_if :: node where
  "if_else_if = mk_file
     [Node ''IfStatement'' None []
        [(''test'', mk_identifier ''a''),
         (''consequent'', mk_block []),
         (''alternate'',
            Node ''IfStatement'' None []
              [(''test'', mk_identifier ''b''), (''consequent'', mk_block [])])]]"

text \<open>\<^verbatim>\<open>function f(x) { return x; }\<close>\<close>

definition straight_line_function :: node where
  "straight_line_function = mk_file
     [Node ''FunctionDeclaration'' None [(''async'', JBool False), (''generator'', JBool False)]
        [(''id'', mk_identifier ''f''),
         (''params'', mk_identifier ''x''),
         (''body'', mk_block
            [Node ''ReturnStatement'' None [] [(''argument'', mk_identifier ''x'')]])]]"

text \<open>\<^verbatim>\<open>for (;;) { for (k in o) { for (v of xs) {} } }\<close>, at line 1, column 0.\<close>

definition for_in_of :: node where
  "for_in_of =
     Node ''ForStatement''
       (Some \<lparr>loc_start = \<lparr>pos_line = 1, pos_column = 0\<rparr>,
              loc_end = \<lparr>pos_line = 1, pos_column = 44\<rparr>\<rparr>) []
       [(''body'', mk_block
          [Node ''ForInStatement'' None []
             [(''left'', mk_identifier ''k''), (''right'', mk_identifier ''o''),
              (''body'', mk_block
                 [Node ''ForOfStatement'' None [(''await'', JBool False)]
                    [(''left'', mk_identifier ''v''), (''right'', mk_identifier ''xs''),
                     (''body'', mk_block [])]])]])]"

text \<open>\<^verbatim>\<open>for (;;) { for (;;) { while (c) {} } }\<close>, at line 1, column 0.\<close>

definition for_for_while :: node where
  "for_for_while =
     Node ''ForStatement''
       (Some \<lparr>loc_start = \<lparr>pos_line = 1, pos_column = 0\<rparr>,
              loc_end = \<lparr>pos_line = 1, pos_column = 37\<rparr>\<rparr>) []
       [(''body'', mk_block
          [Node ''ForStatement'' None []
             [(''body'', mk_block
                 [Node ''WhileStatement'' None []
                    [(''test'', mk_identifier ''c''), (''body'', mk_block [])]])]])]"

text \<open>\<^verbatim>\<open>password = "abcdef123"\<close> and \<^verbatim>\<open>password = "abc"\<close>, as declarators.\<close>

definition declarator :: "string \<Rightarrow> string \<Rightarrow> node" where
  "declarator name v =
     Node ''VariableDeclarator'' None []
       [(''id'', mk_identifier name), (''init'', mk_string_literal v)]"

text \<open>
  A project with the source directory \<open>/proj/src\<close>: a file that parses, one that does
  not, one that cannot be read, a package file, a dependency directory and a directory
  that cannot be listed. The builtins of the language are stand-ins that agree with it
  on the arguments the examples use: the logarithms \<open>ln 1 = 0\<close>,
  \<open>ln 6 = 1.791759469228055\<close>, \<open>log\<^sub>2 2 = 1\<close> and \<open>log\<^sub>2 4 = 2\<close>, and the lower-casing of
  the ASCII letters and of the Kelvin sign U+212A.
\<close>

definition example_toLowerCase :: "jsstring \<Rightarrow> jsstring" where
  "example_toLowerCase s =
     map (\<lambda>u. if 65 \<le> u \<and> u \<le> 90 then u + 32 else if u = 0x212A then 107 else u) s"

definition example_error :: js_error where
  "example_error = \<lparr>err_message = js ''failed'', err_loc = None\<rparr>"

definition parse_error :: js_error where
  "parse_error = \<lparr>err_message = js ''Unexpected token (1:4)'',
                   err_loc = Some \<lparr>pos_line = 1, pos_column = 4\<rparr>\<rparr>"

definition ok_code :: jsstring where
  "ok_code = js ''if (a) {} else if (b) {}'' @ [newline] @ js ''// end''"

definition bad_code :: jsstring where
  "bad_code = js ''let = ;'' @ [newline]"

definition example_issue :: "string \<Rightarrow> jsstring \<Rightarrow> CodeIssue" where
  "example_issue c rel =
     \<lparr>i_type = js ''example'', i_severity = Info, i_message = js c, i_line = 1, i_column = 0,
      i_filePath = rel, i_code = Some (js c)\<rparr>"

definition example_linter :: linter where
  "example_linter c p =
     Inr [\<lparr>lr_messages = [\<lparr>lm_severity = 2, lm_message = js ''a is not defined'',
                             lm_line = Some 1, lm_column = None,
                             lm_ruleId = Some (js ''no-undef'')\<rparr>]\<rparr>]"

definition example_env :: env where
  "example_env =
     \<lparr>readFile = (\<lambda>p. if p = js ''/proj/src/ok.js'' then Inr ok_code
                       else if p = js ''/proj/src/bad.js'' then Inr bad_code
                       else Inl example_error),
      readdir_tree = (\<lambda>d. if d = js ''/proj/src''
                           then Some [FileEntry (js ''ok.js''), FileEntry (js ''package.json''),
                                      DirEntry (js ''node_modules'')
                                        (Some [FileEntry (js ''dep.js'')]),
                                      FileEntry (js ''bad.js''),
                                      DirEntry (js ''locked'') None,
                                      FileEntry (js ''gone.ts'')]
                           else None),
      path_join = (\<lambda>a b. a @ js ''/'' @ b),
      path_relative = (\<lambda>a b. drop (length a + 1) b),
      parse = (\<lambda>c. if c = ok_code then Inr if_else_if else Inl parse_error),
      new_ESLint = (\<lambda>config. Inr example_linter),
      syntaxDetector = (\<lambda>ast c rel. Inr [example_issue ''EMPTY_BLOCK'' rel]),
      logicDetector = (\<lambda>ast c rel. Inl example_error),
      performanceDetector = (\<lambda>ast c rel. Inr (PerformanceDetector_detect ast c rel)),
      securityDetector = (\<lambda>ast c rel. Inr [example_issue ''XSS_RISK'' rel]),
      complexityCalculator = (\<lambda>ast. Inr (calculate ast)),
      Math_log = (\<lambda>x. if x = 6 then 4034683638976513 / 2251799813685248 else x - 1),
      Math_log2 = (\<lambda>x. of_int (expo x)),
      String_toLowerCase = example_toLowerCase,
      RegExp_test_nested = (\<lambda>pattern. False),
      RegExp_test_repeated = (\<lambda>pattern. False),
      Date_now_start = 1000, Date_now_end = 1250, new_Date = 1250\<rparr>"

text \<open>The same project with nothing in it but a text file and a dependency directory.\<close>

definition empty_env :: env where
  "empty_env = example_env
     \<lparr>readdir_tree := (\<lambda>d. Some [FileEntry (js ''README.md''),
                                  DirEntry (js ''node_modules'')
                                    (Some [FileEntry (js ''dep.js'')])])\<rparr>"

text \<open>A project of 40 source files.\<close>

definition forty_env :: env where
  "forty_env = example_env
     \<lparr>readdir_tree := (\<lambda>d. Some (map (\<lambda>k. FileEntry (decimal k @ js ''.js'')) [0..<40]))\<rparr>"

text \<open>
  A callback that records the percentages it is given, and throws whenever \<open>throws\<close>
  says so.
\<close>

definition recorder :: "(int \<Rightarrow> bool) \<Rightarrow> int list progress_callback" where
  "recorder throws pct seen =
     (if throws pct then Inl example_error else Inr (), seen @ [pct])"

text \<open>What a detector contributes, and what the linter contributes.\<close>

definition detector_issues :: "detector \<Rightarrow> node \<Rightarrow> jsstring \<Rightarrow> jsstring \<Rightarrow> CodeIssue list" where
  "detector_issues d ast code rel = (case d ast code rel of Inl err \<Rightarrow> [] | Inr found \<Rightarrow> found)"

definition lint_issues_of :: "linter option \<Rightarrow> jsstring \<Rightarrow> jsstring \<Rightarrow> jsstring \<Rightarrow> CodeIssue list" where
  "lint_issues_of eslint code filePath rel =
     (case eslint of
        None \<Rightarrow> []
      | Some lintText \<Rightarrow>
          (case lintText code filePath of Inl err \<Rightarrow> [] | Inr results \<Rightarrow> lintIssues rel results))"

text \<open>
  \<^verbatim>\<open>const password = "abcdef123";\<close> alone, and followed by \<^verbatim>\<open>re.exec(s);\<close>.
\<close>

definition secret_code :: jsstring where
  "secret_code = js ''const password = '' @ [34] @ js ''abcdef123'' @ [34] @ js '';''"

definition secret_exec_code :: jsstring where
  "secret_exec_code = secret_code @ js '' re.exec(s);''"

definition secret_declarator :: node where
  "secret_declarator = declarator ''password'' ''abcdef123''"

definition secret_declaration :: node where
  "secret_declaration =
     Node ''VariableDeclaration'' None [(''kind'', JStr (js ''const''))]
       [(''declarations'', secret_declarator)]"

definition exec_call :: node where
  "exec_call =
     Node ''CallExpression'' None []
       [(''callee'',
           Node ''MemberExpression'' None [(''computed'', JBool False)]
             [(''object'', mk_identifier ''re''), (''property'', mk_identifier ''exec'')]),
        (''arguments'', mk_identifier ''s'')]"

definition secret_alone :: node where
  "secret_alone = mk_file [secret_declaration]"

definition secret_then_exec :: node where
  "secret_then_exec =
     mk_file [secret_declaration,
              Node ''ExpressionStatement'' None [] [(''expression'', exec_call)]]"

text \<open>A project of these two files, analysed with the security detector of this theory.\<close>

definition secret_env :: env where
  "secret_env = example_env
     \<lparr>readFile := (\<lambda>p. if p = js ''/proj/src/config.js'' then Inr secret_code
                        else if p = js ''/proj/src/match.js'' then Inr secret_exec_code
                        else Inl example_error),
      parse := (\<lambda>c. if c = secret_code then Inr secret_alone
                     else if c = secret_exec_code then Inr secret_then_exec
                     else Inl parse_error),
      securityDetector := (\<lambda>ast c rel. SecurityDetector_detect example_env ast c rel)\<rparr>"

text \<open>
  A project that holds a package file and nothing else, on an installation where the
  React plug-in of the linter cannot be resolved: constructing the linter with a
  configuration that extends it throws.
\<close>

definition package_only_env :: env where
  "package_only_env = example_env
     \<lparr>readdir_tree := (\<lambda>d. if d = js ''/proj'' then Some [FileEntry (js ''package.json'')]
                            else None),
      new_ESLint := (\<lambda>config. if js ''plugin:react/recommended'' \<in> set (cfg_extends config)
                               then Inl example_error else new_ESLint example_env config)\<rparr>"

section \<open>Properties of the traversal\<close>

lemma pnode_paths: "map pnode (paths n) = descendants n"
  by (induction n rule: paths.induct) (simp add: map_concat comp_def cong: map_cong)

lemma fold_complexityVisitor:
  "fold complexityVisitor ps c = c + length (filter decision_point (map pnode ps))"
  by (induction ps arbitrary: c)
     (auto simp: complexityVisitor_def decision_point_def Let_def)

lemma calculate_descendants:
  "calculate ast = 1 + length (filter decision_point (descendants ast))"
  by (simp add: calculate_def traverse_def fold_complexityVisitor pnode_paths)

lemma descendants_smaller: "x \<in> set (descendants n) \<Longrightarrow> size x < size n"
proof (induction n arbitrary: x rule: descendants.induct)
  case (1 t l ps ks)
  then obtain kc where kc: "kc \<in> set ks" and x: "x = snd kc \<or> x \<in> set (descendants (snd kc))"
    by auto
  have "size (snd kc) < size (Node t l ps ks)"
    using kc by (induction ks) (auto simp: less_Suc_eq_le)
  moreover have "size x \<le> size (snd kc)"
    using x "1.IH"[OF kc] by (auto intro: less_imp_le)
  ultimately show ?case by simp
qed

lemma split_from_length:
  "length (split_from cur sep s) = Suc (length (filter (\<lambda>c. c = sep) s))"
  by (induction s arbitrary: cur) simp_all

lemma split_length: "length (split s sep) = Suc (length (filter (\<lambda>c. c = sep) s))"
  by (simp add: split_def split_from_length)

section \<open>Properties of the loop over the files\<close>

lemma analyzeLoop_unfold:
  "i < length files \<Longrightarrow>
   analyzeLoop e eslint files dir cb i (is, fas, s) =
   analyzeLoop e eslint files dir cb (Suc i)
     (is @ fa_issues (analyzeFile e eslint (files ! i) dir),
      fas @ [analyzeFile e eslint (files ! i) dir],
      callback_step cb (progress_pct i (length files)) s)"
  by (subst analyzeLoop.simps)
     (simp add: Let_def callback_step_def split: option.splits prod.splits sum.splits)

lemma analyzeLoop_done:
  "\<not> i < length files \<Longrightarrow> analyzeLoop e eslint files dir cb i st = st"
  by (subst analyzeLoop.simps) (simp add: Let_def)

lemma analyzeLoop_eq:
  "length files - i = n \<Longrightarrow> i \<le> length files \<Longrightarrow>
   analyzeLoop e eslint files dir cb i (is, fas, s) =
     (is @ concat (map (\<lambda>f. fa_issues (analyzeFile e eslint f dir)) (drop i files)),
      fas @ map (\<lambda>f. analyzeFile e eslint f dir) (drop i files),
      fold (\<lambda>j. callback_step cb (progress_pct j (length files))) [i..<length files] s)"
proof (induction n arbitrary: i "is" fas s)
  case 0
  then show ?case by (simp add: analyzeLoop_done)
next
  case (Suc n)
  then have lt: "i < length files" by simp
  have d: "drop i files = files ! i # drop (Suc i) files"
    using lt by (simp add: Cons_nth_drop_Suc)
  have u: "[i..<length files] = i # [Suc i..<length files]"
    using lt by (simp add: upt_conv_Cons)
  have "length files - Suc i = n" "Suc i \<le> length files"
    using Suc.prems by simp_all
  from Suc.IH[OF this] show ?case
    by (simp add: analyzeLoop_unfold[OF lt] d u)
qed

lemma analyzeLoop_all:
  "analyzeLoop e eslint files dir cb 0 ([], [], s) =
     (concat (map (\<lambda>f. fa_issues (analyzeFile e eslint f dir)) files),
      map (\<lambda>f. analyzeFile e eslint f dir) files,
      fold (\<lambda>j. callback_step cb (progress_pct j (length files))) [0..<length files] s)"
  using analyzeLoop_eq[of files 0 "length files" e eslint dir cb "[]" "[]" s] by simp

lemma analyzeCodebase_returns:
  assumes "initESLintForFramework e (fst (detectFrameworkAndSource e projectPath)) = Inr eslint"
  shows "analyzeCodebase e projectPath cb s =
     (let dir = snd (detectFrameworkAndSource e projectPath);
          files = getJavaScriptFiles (path_join e) dir (readdir_tree e dir);
          fas = map (\<lambda>f. analyzeFile e eslint f dir) files
      in Inr (\<lparr>r_projectPath = dir, r_totalFiles = length files,
               r_analyzedFiles = length files, r_issues = concat (map fa_issues fas),
               r_metrics = calculateMetrics e fas, r_fileAnalyses = fas,
               r_duration = Date_now_end e - Date_now_start e, r_timestamp = new_Date e\<rparr>,
              fold (\<lambda>j. callback_step cb (progress_pct j (length files)))
                [0..<length files] s))"
  using assms unfolding analyzeCodebase_def Let_def analyzeLoop_all
  by (simp add: comp_def)

lemma analyzeCodebase_throws:
  assumes "initESLintForFramework e (fst (detectFrameworkAndSource e projectPath)) = Inl err"
  shows "analyzeCodebase e projectPath cb s = Inl err"
  using assms by (simp add: analyzeCodebase_def Let_def)

lemma analyzeCodebase_returned:
  assumes "analyzeCodebase e projectPath cb s = Inr rs"
  shows "\<exists>eslint.
           initESLintForFramework e (fst (detectFrameworkAndSource e projectPath)) = Inr eslint"
  using assms
  by (cases "initESLintForFramework e (fst (detectFrameworkAndSource e projectPath))")
     (simp_all add: analyzeCodebase_throws)

section \<open>Properties of the double-precision operations\<close>

lemma rne_of_int: "rne (of_int k) = k"
  by (simp add: rne_def)

lemma rne_bounds: "\<lfloor>m\<rfloor> \<le> rne m \<and> rne m \<le> \<lfloor>m\<rfloor> + 1"
  by (simp add: rne_def Let_def)

lemma rne_mono: "a \<le> b \<Longrightarrow> rne a \<le> rne b"
proof -
  assume ab: "a \<le> b"
  then have fl: "\<lfloor>a\<rfloor> \<le> \<lfloor>b\<rfloor>" by (rule floor_mono)
  show ?thesis
  proof (cases "\<lfloor>a\<rfloor> = \<lfloor>b\<rfloor>")
    case True
    then have "a - of_int \<lfloor>a\<rfloor> \<le> b - of_int \<lfloor>b\<rfloor>" using ab by simp
    then show ?thesis using True by (auto simp: rne_def Let_def)
  next
    case False
    then have "\<lfloor>a\<rfloor> + 1 \<le> \<lfloor>b\<rfloor>" using fl by simp
    then show ?thesis using rne_bounds[of a] rne_bounds[of b] by linarith
  qed
qed

lemma expo_bounds:
  assumes "0 < x"
  shows "2 powi (expo x) \<le> x \<and> x < 2 powi (expo x + 1)"
proof -
  obtain p q where pq: "quotient_of x = (p, q)" by (cases "quotient_of x")
  then have q: "0 < q" by (rule quotient_of_denom_pos)
  have x: "x = of_int p / of_int q" using pq by (rule quotient_of_div)
  have p: "0 < p" using assms q x by (simp add: zero_less_divide_iff)
  define a where "a = floorlog 2 (nat p)"
  define b where "b = floorlog 2 (nat q)"
  have pa: "2 ^ (a - 1) \<le> nat p" "nat p < 2 ^ a"
    using floorlog_bounds[of "nat p" 2] p by (simp_all add: a_def)
  have qb: "2 ^ (b - 1) \<le> nat q" "nat q < 2 ^ b"
    using floorlog_bounds[of "nat q" 2] q by (simp_all add: b_def)
  have a1: "1 \<le> a" using pa(2) p by (cases a) auto
  have b1: "1 \<le> b" using qb(2) q by (cases b) auto
  have P: "(2::rat) ^ (a - 1) \<le> of_int p" "of_int p < (2::rat) ^ a"
  proof -
    have "of_nat (2 ^ (a - 1)) \<le> (of_nat (nat p) :: rat)" using pa(1) by (simp only: of_nat_le_iff)
    then show "(2::rat) ^ (a - 1) \<le> of_int p" using p by simp
    have "(of_nat (nat p) :: rat) < of_nat (2 ^ a)" using pa(2) by (simp only: of_nat_less_iff)
    then show "of_int p < (2::rat) ^ a" using p by simp
  qed
  have Q: "(2::rat) ^ (b - 1) \<le> of_int q" "of_int q < (2::rat) ^ b"
  proof -
    have "of_nat (2 ^ (b - 1)) \<le> (of_nat (nat q) :: rat)" using qb(1) by (simp only: of_nat_le_iff)
    then show "(2::rat) ^ (b - 1) \<le> of_int q" using q by simp
    have "(of_nat (nat q) :: rat) < of_nat (2 ^ b)" using qb(2) by (simp only: of_nat_less_iff)
    then show "of_int q < (2::rat) ^ b" using q by simp
  qed
  define d where "d = int a - int b"
  have qpos: "(0::rat) < of_int q" using q by simp
  have pw: "(2::rat) powi (d + 1) = 2 ^ a / 2 ^ (b - 1)" "(2::rat) powi (d - 1) = 2 ^ (a - 1) / 2 ^ b"
    "(2::rat) powi d = 2 * 2 powi (d - 1)"
  proof -
    have "d + 1 = int a - int (b - 1)" using b1 by (simp add: d_def)
    then show "(2::rat) powi (d + 1) = 2 ^ a / 2 ^ (b - 1)"
      by (simp add: power_int_diff)
    have "d - 1 = int (a - 1) - int b" using a1 by (simp add: d_def)
    then show "(2::rat) powi (d - 1) = 2 ^ (a - 1) / 2 ^ b"
      by (simp add: power_int_diff)
    have "(2::rat) powi d = 2 powi (1 + (d - 1))" by simp
    also have "\<dots> = 2 * 2 powi (d - 1)" by (subst power_int_add) simp_all
    finally show "(2::rat) powi d = 2 * 2 powi (d - 1)" .
  qed
  have up: "x < 2 powi (d + 1)"
  proof -
    have "x < 2 ^ a / of_int q" unfolding x using P(2) qpos by (simp add: divide_strict_right_mono)
    also have "\<dots> \<le> 2 ^ a / 2 ^ (b - 1)" using Q(1) by (simp add: frac_le)
    finally show ?thesis by (simp add: pw)
  qed
  have lo: "2 powi (d - 1) \<le> x"
  proof -
    have "(2::rat) ^ (a - 1) / 2 ^ b \<le> of_int p / 2 ^ b" using P(1) by (simp add: divide_right_mono)
    also have "\<dots> \<le> of_int p / of_int q" using Q(2) qpos p by (simp add: frac_le)
    finally show ?thesis by (simp add: pw x)
  qed
  have e: "expo x = (if 2 powi d \<le> x then d else d - 1)"
    by (simp add: expo_def Let_def pq a_def b_def d_def)
  show ?thesis
  proof (cases "2 powi d \<le> x")
    case True
    then show ?thesis using up e by simp
  next
    case False
    then show ?thesis using lo e by simp
  qed
qed

lemma to_double_pos_eq:
  "0 < x \<Longrightarrow>
   to_double x = of_int (rne (x / 2 powi (expo x - 52))) * 2 powi (expo x - 52)"
  by (simp add: to_double_def Let_def)

lemma to_double_bounds:
  assumes "0 < x"
  shows "2 powi (expo x) \<le> to_double x \<and> to_double x \<le> 2 powi (expo x + 1)"
proof -
  define u :: rat where "u = 2 powi (expo x - 52)"
  have u: "0 < u" by (simp add: u_def)
  have lo: "(2::rat) powi (expo x) = 2 ^ 52 * u"
  proof -
    have "(2::rat) powi (expo x) = 2 powi (52 + (expo x - 52))" by simp
    also have "\<dots> = 2 powi 52 * 2 powi (expo x - 52)" by (subst power_int_add) simp_all
    finally show ?thesis by (simp add: u_def)
  qed
  have hi: "(2::rat) powi (expo x + 1) = 2 ^ 53 * u"
  proof -
    have "expo x + 1 = 53 + (expo x - 52)" by simp
    then have "(2::rat) powi (expo x + 1) = 2 powi (53 + (expo x - 52))" by (simp only:)
    also have "\<dots> = 2 powi 53 * 2 powi (expo x - 52)" by (subst power_int_add) simp_all
    finally show ?thesis by (simp add: u_def)
  qed
  from expo_bounds[OF assms] have "2 ^ 52 * u \<le> x" "x < 2 ^ 53 * u"
    by (simp_all add: lo hi)
  then have "of_int (2 ^ 52) \<le> x / u" "x / u \<le> of_int (2 ^ 53)"
    using u by (simp_all add: pos_le_divide_eq pos_divide_le_eq)
  then have "rne (of_int (2 ^ 52)) \<le> rne (x / u)" "rne (x / u) \<le> rne (of_int (2 ^ 53))"
    by (simp_all only: rne_mono)
  then have "2 ^ 52 \<le> rne (x / u)" "rne (x / u) \<le> 2 ^ 53"
    by (simp_all only: rne_of_int)
  then have "(of_int (2 ^ 52) :: rat) \<le> of_int (rne (x / u))"
    "(of_int (rne (x / u)) :: rat) \<le> of_int (2 ^ 53)"
    by (simp_all only: of_int_le_iff)
  then have "2 ^ 52 * u \<le> of_int (rne (x / u)) * u" "of_int (rne (x / u)) * u \<le> 2 ^ 53 * u"
    using u by simp_all
  then show ?thesis
    using assms by (simp add: to_double_pos_eq lo hi u_def)
qed

lemma to_double_pos: "0 < x \<Longrightarrow> 0 < to_double x"
  using to_double_bounds[of x] zero_less_power_int[of "2::rat" "expo x"] by linarith

lemma to_double_mono:
  assumes "0 < x" and "x \<le> y"
  shows "to_double x \<le> to_double y"
proof -
  have y: "0 < y" using assms by simp
  consider "expo x = expo y" | "expo x < expo y" | "expo y < expo x" by linarith
  then show ?thesis
  proof cases
    case 1
    have "x / 2 powi (expo y - 52) \<le> y / 2 powi (expo y - 52)"
      using assms(2) by (simp add: divide_right_mono)
    then have "rne (x / 2 powi (expo y - 52)) \<le> rne (y / 2 powi (expo y - 52))"
      by (rule rne_mono)
    then have "(of_int (rne (x / 2 powi (expo y - 52))) :: rat)
                 \<le> of_int (rne (y / 2 powi (expo y - 52)))"
      by (simp only: of_int_le_iff)
    then show ?thesis
      using assms(1) y 1 by (simp add: to_double_pos_eq)
  next
    case 2
    then have "(2::rat) powi (expo x + 1) \<le> 2 powi (expo y)"
      by (intro power_int_increasing) simp_all
    then show ?thesis
      using to_double_bounds[OF assms(1)] to_double_bounds[OF y] by linarith
  next
    case 3
    then have "(2::rat) powi (expo y + 1) \<le> 2 powi (expo x)"
      by (intro power_int_increasing) simp_all
    then have False
      using expo_bounds[OF assms(1)] expo_bounds[OF y] assms(2) by linarith
    then show ?thesis ..
  qed
qed

lemma rne_eqI: "\<bar>m - of_int k\<bar> < 1 / 2 \<Longrightarrow> rne m = k"
proof -
  assume a: "\<bar>m - of_int k\<bar> < 1 / 2"
  show ?thesis
  proof (cases "of_int k \<le> m")
    case True
    then have "\<lfloor>m\<rfloor> = k" using a by (simp add: floor_eq_iff abs_less_iff)
    then show ?thesis using a True by (simp add: rne_def Let_def abs_less_iff)
  next
    case False
    then have "\<lfloor>m\<rfloor> = k - 1" using a by (simp add: floor_eq_iff abs_less_iff)
    then show ?thesis using a False by (simp add: rne_def Let_def abs_less_iff)
  qed
qed

lemma expo_eqI:
  assumes "2 powi e \<le> x" and "x < 2 powi (e + 1)"
  shows "expo x = e"
proof -
  have x: "0 < x" using assms(1) zero_less_power_int[of "2::rat" e] by linarith
  note b = expo_bounds[OF x]
  consider "expo x = e" | "expo x < e" | "e < expo x" by linarith
  then show ?thesis
  proof cases
    case 1
    then show ?thesis .
  next
    case 2
    then have "(2::rat) powi (expo x + 1) \<le> 2 powi e"
      by (intro power_int_increasing) simp_all
    then have False using b assms by linarith
    then show ?thesis ..
  next
    case 3
    then have "(2::rat) powi (e + 1) \<le> 2 powi (expo x)"
      by (intro power_int_increasing) simp_all
    then have False using b assms by linarith
    then show ?thesis ..
  qed
qed

lemma to_double_eqI:
  assumes "2 powi e \<le> x" and "x < 2 powi (e + 1)"
    and "\<bar>x / 2 powi (e - 52) - of_int k\<bar> < 1 / 2"
  shows "to_double x = of_int k * 2 powi (e - 52)"
proof -
  have x: "0 < x" using assms(1) zero_less_power_int[of "2::rat" e] by linarith
  have "expo x = e" using assms(1,2) by (rule expo_eqI)
  moreover have "rne (x / 2 powi (e - 52)) = k" using assms(3) by (rule rne_eqI)
  ultimately show ?thesis using x by (simp add: to_double_pos_eq)
qed

lemma Math_round_of_int: "Math_round (of_int k) = k"
  by (simp add: Math_round_def floor_eq_iff)

lemma to_double_of_int:
  assumes "0 < k" and "k < 2 ^ 53"
  shows "to_double (of_int k) = of_int k"
proof -
  define e where "e = expo (of_int k)"
  have x: "(0::rat) < of_int k" using assms(1) by simp
  have b: "2 powi e \<le> (of_int k :: rat)" using expo_bounds[OF x] by (simp add: e_def)
  have e: "e \<le> 52"
  proof (rule ccontr)
    assume "\<not> e \<le> 52"
    then have "(2::rat) powi 53 \<le> 2 powi e" by (intro power_int_increasing) simp_all
    then have "(2::rat) ^ 53 \<le> of_int k" using b by simp
    then have "(of_int (2 ^ 53) :: rat) \<le> of_int k" by simp
    then have "2 ^ 53 \<le> k" by (simp only: of_int_le_iff)
    then show False using assms(2) by simp
  qed
  define n where "n = nat (52 - e)"
  have "e - 52 = - int n" using e by (simp add: n_def)
  then have u: "(2::rat) powi (e - 52) = 1 / 2 ^ n" by (simp add: power_int_minus_divide)
  have "of_int k / (2::rat) powi (e - 52) = of_int (k * 2 ^ n)" by (simp add: u)
  then have "rne (of_int k / 2 powi (e - 52)) = k * 2 ^ n" by (simp only: rne_of_int)
  then show ?thesis using x by (simp add: to_double_pos_eq e_def[symmetric] u)
qed

lemma to_double_numerals:
  "to_double 1 = 1" "to_double 2 = 2" "to_double 100 = 100" "to_double 171 = 171"
  "to_double 10000 = 10000" "to_double 17100 = 17100"
  using to_double_of_int[of 1] to_double_of_int[of 2] to_double_of_int[of 100]
    to_double_of_int[of 171] to_double_of_int[of 10000] to_double_of_int[of 17100]
  by simp_all

lemma to_double_0: "to_double 0 = 0"
  by (simp add: to_double_def)

lemma to_double_neg: "to_double (- x) = - to_double x"
  by (simp add: to_double_def Let_def)

lemma to_double_mono_all:
  assumes "x \<le> y"
  shows "to_double x \<le> to_double y"
proof -
  have neg: "to_double z < 0" if "z < 0" for z
    using to_double_pos[of "- z"] that by (simp add: to_double_neg)
  consider "0 < x" | "x = 0" | "x < 0" "y < 0" | "x < 0" "0 \<le> y" by linarith
  then show ?thesis
  proof cases
    case 1
    then show ?thesis using assms by (rule to_double_mono)
  next
    case 2
    then show ?thesis using assms to_double_pos[of y] by (cases "y = 0") (auto simp: to_double_0)
  next
    case 3
    then have "to_double (- y) \<le> to_double (- x)" using assms by (intro to_double_mono) simp_all
    then show ?thesis by (simp add: to_double_neg)
  next
    case 4
    have "to_double x < 0" using 4(1) by (rule neg)
    moreover have "0 \<le> to_double y"
    proof (cases "y = 0")
      case True
      then show ?thesis by (simp add: to_double_0)
    next
      case False
      then have "0 < y" using 4(2) by simp
      then show ?thesis using to_double_pos[of y] by simp
    qed
    ultimately show ?thesis by simp
  qed
qed

lemma Math_round_mono: "x \<le> y \<Longrightarrow> Math_round x \<le> Math_round y"
  by (simp add: Math_round_def floor_mono)

lemma round_2_places_mono: "x \<le> y \<Longrightarrow> round_2_places x \<le> round_2_places y"
  unfolding round_2_places_def double_div_def double_mul_def
  by (intro to_double_mono_all divide_right_mono Math_round_mono)
     (simp_all add: Math_round_mono to_double_mono_all)

lemma round_2_places_0: "round_2_places 0 = 0"
  using Math_round_of_int[of 0]
  by (simp add: round_2_places_def double_div_def double_mul_def to_double_0)

lemma round_2_places_100: "round_2_places 100 = 100"
  using Math_round_of_int[of 10000]
  by (simp add: round_2_places_def double_div_def double_mul_def to_double_numerals)

lemma progress_pct_mono:
  assumes "i \<le> j" and "0 < n"
  shows "progress_pct i n \<le> progress_pct j n"
proof -
  have a: "(0::rat) < of_nat (i + 1) / of_nat n" using assms(2) by simp
  have b: "(of_nat (i + 1) :: rat) / of_nat n \<le> of_nat (j + 1) / of_nat n"
    using assms by (simp add: divide_right_mono)
  have c: "to_double (of_nat (i + 1) / of_nat n) \<le> to_double (of_nat (j + 1) / of_nat n)"
    using a b by (rule to_double_mono)
  have d: "0 < to_double (of_nat (i + 1) / of_nat n) * 100"
    using to_double_pos[OF a] by simp
  have "to_double (to_double (of_nat (i + 1) / of_nat n) * 100)
          \<le> to_double (to_double (of_nat (j + 1) / of_nat n) * 100)"
    using d c by (intro to_double_mono) simp_all
  then show ?thesis
    by (simp add: progress_pct_def double_div_def double_mul_def Math_round_def floor_mono)
qed

lemma progress_pct_last: "0 < n \<Longrightarrow> progress_pct (n - 1) n = 100"
  using Math_round_of_int[of 100]
  by (simp add: progress_pct_def double_div_def double_mul_def to_double_numerals)

lemma progress_pct_sorted: "sorted (map (\<lambda>i. progress_pct i n) [0..<n])"
proof (cases "0 < n")
  case True
  have "progress_pct i n \<le> progress_pct j n" if "i \<le> j" for i j
    using that True by (rule progress_pct_mono)
  then show ?thesis
    by (simp add: sorted_map sorted_wrt_iff_nth_less del: upt_Suc)
next
  case False
  then show ?thesis by simp
qed

section \<open>The example project\<close>

lemma example_read_ok: "readFile example_env (js ''/proj/src/ok.js'') = Inr ok_code"
  by (simp add: example_env_def js_def)

lemma example_read_bad: "readFile example_env (js ''/proj/src/bad.js'') = Inr bad_code"
  by (simp add: example_env_def js_def)

lemma example_parse_bad: "parse example_env bad_code = Inl parse_error"
  by (simp add: example_env_def js_def bad_code_def ok_code_def)

lemma example_parse_ok: "parse example_env ok_code = Inr if_else_if"
  by (simp add: example_env_def)

lemma example_dir:
  "detectFrameworkAndSource example_env (js ''/proj'') = (js ''react'', js ''/proj/src'')"
  by (simp add: detectFrameworkAndSource_def example_env_def indicators_def first_segment_def
      split_def has_code_extension_def endsWith_def js_def)

lemma example_files:
  "getJavaScriptFiles (path_join example_env) (js ''/proj/src'')
     (readdir_tree example_env (js ''/proj/src''))
   = [js ''/proj/src/ok.js'', js ''/proj/src/bad.js'', js ''/proj/src/gone.ts'']"
  by (simp add: example_env_def skipped_names_def is_source_name_def source_extensions_def
      endsWith_def js_def)

lemma empty_files:
  "getJavaScriptFiles (path_join empty_env) d (readdir_tree empty_env d) = []"
  by (simp add: empty_env_def example_env_def skipped_names_def is_source_name_def
      source_extensions_def endsWith_def js_def)


lemma example_relative:
  "path_relative example_env (js ''/proj/src'') (js ''/proj/src/ok.js'') = js ''ok.js''"
  "path_relative example_env (js ''/proj/src'') (js ''/proj/src/bad.js'') = js ''bad.js''"
  "path_relative example_env (js ''/proj/src'') (js ''/proj/src/gone.ts'') = js ''gone.ts''"
  by (simp_all add: example_env_def js_def)

lemma example_lines:
  "length (split ok_code newline) = 2" "length (split bad_code newline) = 2"
  by (simp_all add: ok_code_def bad_code_def split_def js_def newline_def)

lemma detect_if_else_if: "PerformanceDetector_detect if_else_if c rel = []"
  by (simp add: PerformanceDetector_detect_def traverse_def if_else_if_def mk_file_def
      mk_block_def mk_identifier_def perfVisitor_def)

lemma example_linter_built:
  "initESLintForFramework example_env framework = Inr (Some example_linter)"
  by (simp add: initESLintForFramework_def example_env_def)

section \<open>Maintainability index\<close>

lemma round_2_places_clamp:
  "max 0 (min 100 (round_2_places x)) = round_2_places (clamp 0 100 x)"
proof -
  consider "x < 0" | "100 < x" | "0 \<le> x" "x \<le> 100" by linarith
  then show ?thesis
  proof cases
    case 1
    then have "round_2_places x \<le> 0"
      using round_2_places_mono[of x 0] by (simp add: round_2_places_0)
    then show ?thesis using 1 by (simp add: clamp_def round_2_places_0)
  next
    case 2
    then have "100 \<le> round_2_places x"
      using round_2_places_mono[of 100 x] by (simp add: round_2_places_100)
    then show ?thesis using 2 by (simp add: clamp_def round_2_places_100)
  next
    case 3
    then have "0 \<le> round_2_places x" "round_2_places x \<le> 100"
      using round_2_places_mono[of 0 x] round_2_places_mono[of x 100]
      by (simp_all add: round_2_places_0 round_2_places_100)
    then show ?thesis using 3 by (simp add: clamp_def)
  qed
qed

lemma MI_zero: "calculateMaintainabilityIndex e c 0 = 0"
  by (simp add: calculateMaintainabilityIndex_def)

lemma MI_round_clamp:
  "L \<noteq> 0 \<Longrightarrow>
   calculateMaintainabilityIndex e C L
     = round_2_places (clamp 0 100 (maintainability_raw e C L))"
  unfolding round_2_places_clamp[symmetric]
  by (simp add: calculateMaintainabilityIndex_def maintainability_raw_def round_2_places_def
      Let_def)

text \<open>
  The operations of the formula at two inputs: an average complexity of 577.125 on one
  line, and an average complexity of 2 on three lines.
\<close>

lemma to_double_52_10: "to_double (52 / 10) = 5854679515581645 / 1125899906842624"
  using to_double_eqI[of 2 "52 / 10" 5854679515581645]
  by (simp add: power_int_minus)

lemma to_double_23_100: "to_double (23 / 100) = 8286623314361713 / 36028797018963968"
  using to_double_eqI[of "- 3" "23 / 100" 8286623314361713]
  by (simp add: power_int_minus)

lemma mi_a_cx:
  "double_mul (8286623314361713 / 36028797018963968) (4617 / 8)
     = 4670329570606449 / 35184372088832"
  unfolding double_mul_def
  using to_double_eqI[of 7 "(8286623314361713 / 36028797018963968) * (4617 / 8)" 4670329570606449]
  by (simp add: power_int_minus)

lemma mi_a_sub:
  "double_sub 171 (4670329570606449 / 35184372088832)
     = 1346198056583823 / 35184372088832"
  unfolding double_sub_def
  using to_double_eqI[of 5 "171 - (4670329570606449 / 35184372088832)" 5384792226335292]
  by (simp add: power_int_minus)

lemma mi_a_mul:
  "double_mul (1346198056583823 / 35184372088832) 100
     = 4206868926824447 / 1099511627776"
  unfolding double_mul_def
  using to_double_eqI[of 11 "(1346198056583823 / 35184372088832) * 100" 8413737853648894]
  by (simp add: power_int_minus)

lemma mi_a_raw:
  "double_div (4206868926824447 / 1099511627776) 171
     = 6298002603900927 / 281474976710656"
  unfolding double_div_def
  using to_double_eqI[of 4 "(4206868926824447 / 1099511627776) / 171" 6298002603900927]
  by (simp add: power_int_minus)

lemma mi_a_raw_100:
  "double_mul (6298002603900927 / 281474976710656) 100
     = 4920314534297599 / 2199023255552"
  unfolding double_mul_def
  using to_double_eqI[of 11 "(6298002603900927 / 281474976710656) * 100" 4920314534297599]
  by (simp add: power_int_minus)

lemma to_double_2237_100: "to_double (2237 / 100) = 6296595229017375 / 281474976710656"
  using to_double_eqI[of 4 "2237 / 100" 6296595229017375]
  by (simp add: power_int_minus)

lemma to_double_2238_100: "to_double (2238 / 100) = 6299409978784481 / 281474976710656"
  using to_double_eqI[of 4 "2238 / 100" 6299409978784481]
  by (simp add: power_int_minus)

lemma mi_b_log:
  "double_mul (5854679515581645 / 1125899906842624) (4034683638976513 / 2251799813685248)
     = 5245088730669467 / 562949953421312"
  unfolding double_mul_def
  using to_double_eqI[of 3 "(5854679515581645 / 1125899906842624) * (4034683638976513 / 2251799813685248)" 5245088730669467]
  by (simp add: power_int_minus)

lemma mi_b_sub1:
  "double_sub 171 (5245088730669467 / 562949953421312)
     = 2844354790761715 / 17592186044416"
  unfolding double_sub_def
  using to_double_eqI[of 7 "171 - (5245088730669467 / 562949953421312)" 5688709581523430]
  by (simp add: power_int_minus)

lemma mi_b_cx:
  "double_mul (8286623314361713 / 36028797018963968) 2
     = 8286623314361713 / 18014398509481984"
  unfolding double_mul_def
  using to_double_eqI[of "- 2" "(8286623314361713 / 36028797018963968) * 2" 8286623314361713]
  by (simp add: power_int_minus)

lemma mi_b_sub2:
  "double_sub (2844354790761715 / 17592186044416) (8286623314361713 / 18014398509481984)
     = 5672524770362567 / 35184372088832"
  unfolding double_sub_def
  using to_double_eqI[of 7 "(2844354790761715 / 17592186044416) - (8286623314361713 / 18014398509481984)" 5672524770362567]
  by (simp add: power_int_minus)

lemma mi_b_mul:
  "double_mul (5672524770362567 / 35184372088832) 100
     = 8863319953691511 / 549755813888"
  unfolding double_mul_def
  using to_double_eqI[of 13 "(5672524770362567 / 35184372088832) * 100" 8863319953691511]
  by (simp add: power_int_minus)

lemma mi_b_raw:
  "double_div (8863319953691511 / 549755813888) 171
     = 6634531895160897 / 70368744177664"
  unfolding double_div_def
  using to_double_eqI[of 6 "(8863319953691511 / 549755813888) / 171" 6634531895160897]
  by (simp add: power_int_minus)

lemma mi_b_raw_100:
  "double_mul (6634531895160897 / 70368744177664) 100
     = 5183228043094451 / 549755813888"
  unfolding double_mul_def
  using to_double_eqI[of 13 "(6634531895160897 / 70368744177664) * 100" 5183228043094451]
  by (simp add: power_int_minus)

lemma to_double_9428_100: "to_double (9428 / 100) = 3317182600535081 / 35184372088832"
  using to_double_eqI[of 6 "9428 / 100" 6634365201070162]
  by (simp add: power_int_minus)

lemma example_logarithms:
  "Math_log2 example_env (double_add 1 1) = 1" "Math_log example_env (double_mul 1 1) = 0"
  "Math_log2 example_env (double_add 3 1) = 2" "Math_log example_env (double_mul 3 2)
     = 4034683638976513 / 2251799813685248"
proof -
  have e2: "expo 2 = 1" by (rule expo_eqI) simp_all
  have e4: "expo 4 = 2" by (rule expo_eqI) simp_all
  show "Math_log2 example_env (double_add 1 1) = 1"
    using to_double_of_int[of 2] by (simp add: double_add_def example_env_def e2)
  show "Math_log example_env (double_mul 1 1) = 0"
    using to_double_of_int[of 1] by (simp add: double_mul_def example_env_def)
  show "Math_log2 example_env (double_add 3 1) = 2"
    using to_double_of_int[of 4] by (simp add: double_add_def example_env_def e4)
  show "Math_log example_env (double_mul 3 2) = 4034683638976513 / 2251799813685248"
    using to_double_of_int[of 6] by (simp add: double_mul_def example_env_def)
qed

lemma mi_a_zero:
  "double_mul (5854679515581645 / 1125899906842624) 0 = 0" "double_sub 171 0 = 171"
  using to_double_of_int[of 171] by (simp_all add: double_mul_def double_sub_def to_double_0)

lemma example_raw_577:
  "maintainability_raw example_env (4617 / 8) 1 = 6298002603900927 / 281474976710656"
  unfolding maintainability_raw_def
  by (simp only: example_logarithms to_double_52_10 mi_a_zero to_double_23_100 mi_a_cx
      mi_a_sub mi_a_mul mi_a_raw)

lemma example_raw_2_3:
  "maintainability_raw example_env 2 3 = 6634531895160897 / 70368744177664"
  unfolding maintainability_raw_def
  by (simp only: example_logarithms to_double_52_10 mi_b_log mi_b_sub1 to_double_23_100
      mi_b_cx mi_b_sub2 mi_b_mul mi_b_raw)

lemma example_round_577:
  "round_2_places (6298002603900927 / 281474976710656) = to_double (2237 / 100)"
proof -
  have "Math_round (4920314534297599 / 2199023255552) = 2237"
    by (simp add: Math_round_def floor_eq_iff)
  then show ?thesis
    by (simp only: round_2_places_def mi_a_raw_100 of_int_numeral double_div_def)
qed

lemma example_round_2_3:
  "round_2_places (6634531895160897 / 70368744177664) = to_double (9428 / 100)"
proof -
  have "Math_round (5183228043094451 / 549755813888) = 9428"
    by (simp add: Math_round_def floor_eq_iff)
  then show ?thesis
    by (simp only: round_2_places_def mi_b_raw_100 of_int_numeral double_div_def)
qed

lemma example_clamp:
  "clamp 0 100 (6298002603900927 / 281474976710656) = 6298002603900927 / 281474976710656"
  "clamp 0 100 (6634531895160897 / 70368744177664) = 6634531895160897 / 70368744177664"
  by (simp_all add: clamp_def)

lemma spec_index_577: "spec_index (4617 / 8) 1 = 2238 / 100"
proof -
  have "spec_raw (4617 / 8) 1 = 179 / 8"
    by (simp add: spec_raw_def)
  then show ?thesis
    by (simp add: spec_index_def floor_eq_iff)
qed

text \<open>
  Claim C1, as amended. For a positive number of lines \<open>L\<close> and an average complexity \<open>C\<close>,
  the maintainability index is the value of
  \<open>((171 - 5.2 ln (L log\<^sub>2 (L + 1)) - 0.23 C) 100) / 171\<close> as double-precision arithmetic
  computes it, every operation rounded, in the order in which the formula is written and
  with the logarithms of the implementation, clamped to the interval from 0 to 100 and
  rounded to two decimal places by \<open>Math.round\<close>; for \<open>L = 0\<close> it is 0; and it always
  lies between 0 and 100. The source rounds first and clamps afterwards, which gives the
  same number.
\<close>

theorem maintainability_index_formula:
  "(0 < L \<longrightarrow>
      calculateMaintainabilityIndex e C L
        = round_2_places (clamp 0 100 (maintainability_raw e C L)))
   \<and> calculateMaintainabilityIndex e C 0 = 0
   \<and> 0 \<le> calculateMaintainabilityIndex e C L
   \<and> calculateMaintainabilityIndex e C L \<le> 100"
proof (intro conjI impI)
  show "calculateMaintainabilityIndex e C L
        = round_2_places (clamp 0 100 (maintainability_raw e C L))" if "0 < L"
    using that by (simp add: MI_round_clamp)
  show "calculateMaintainabilityIndex e C 0 = 0" by (rule MI_zero)
  show "0 \<le> calculateMaintainabilityIndex e C L"
    by (simp add: calculateMaintainabilityIndex_def Let_def)
  show "calculateMaintainabilityIndex e C L \<le> 100"
    by (simp add: calculateMaintainabilityIndex_def Let_def)
qed

text \<open>
  Three lines of average complexity 2: the formula evaluates to \<open>94.28236886550532\<close> and
  the index is 94.28, that is, the double nearest to it.
\<close>

theorem maintainability_index_formula_witness:
  "(0::rat) < 3
   \<and> maintainability_raw example_env 2 3 = 6634531895160897 / 70368744177664
   \<and> calculateMaintainabilityIndex example_env 2 3 = to_double (9428 / 100)
   \<and> calculateMaintainabilityIndex example_env 2 0 = 0"
proof -
  have pos: "(0::rat) < 3" by simp
  from maintainability_index_formula[of 3 example_env 2] pos
  have "calculateMaintainabilityIndex example_env 2 3
          = round_2_places (clamp 0 100 (maintainability_raw example_env 2 3))"
    and "calculateMaintainabilityIndex example_env 2 0 = 0"
    by simp_all
  then show ?thesis
    by (simp only: pos example_raw_2_3 example_clamp example_round_2_3 simp_thms)
qed

text \<open>
  The formula of the claim, evaluated exactly, is not always what the code returns. For
  an average complexity of 577.125 on one line the formula is \<open>22.375\<close> and the claim's
  index is 22.38; the code loses the last bit in the division by 171, obtains
  \<open>22.374999999999996\<close>, and returns 22.37. (\<open>ln 1 = 0\<close> and \<open>log\<^sub>2 2 = 1\<close> are exact in
  every implementation.)
\<close>

theorem maintainability_formula_counterexample:
  "calculateMaintainabilityIndex example_env (4617 / 8) 1 = to_double (2237 / 100)
   \<and> spec_index (4617 / 8) 1 = 2238 / 100
   \<and> to_double (2237 / 100) \<noteq> to_double (2238 / 100)"
proof -
  have "calculateMaintainabilityIndex example_env (4617 / 8) 1
          = round_2_places (clamp 0 100 (maintainability_raw example_env (4617 / 8) 1))"
    by (rule MI_round_clamp) simp
  then have "calculateMaintainabilityIndex example_env (4617 / 8) 1 = to_double (2237 / 100)"
    by (simp only: example_raw_577 example_clamp example_round_577)
  moreover have "to_double (2237 / 100) \<noteq> to_double (2238 / 100)"
    unfolding to_double_2237_100 to_double_2238_100 by simp
  ultimately show ?thesis
    using spec_index_577 by simp
qed

section \<open>Cyclomatic complexity\<close>

text \<open>
  Claim C2. The cyclomatic complexity of a syntax tree is 1 plus the number of its nodes
  that are decision points (if statements, switch cases with a test, for, for-in and
  for-of loops, while and do-while loops, catch clauses, conditional expressions, and
  logical expressions with operator && or ||), each counted once whatever its nesting
  depth. The traversal visits the nodes below the root; the root of a parsed tree is a
  File node, which is no decision point, so the count over the whole tree is the same.
  A tree without decision points scores 1, as does the tree of a function without
  branching, and the tree of \<^verbatim>\<open>if (a) {} else if (b) {}\<close> scores 3.
\<close>

theorem calculate_counts_decision_points:
  "calculate ast = 1 + length (filter decision_point (descendants ast))
   \<and> (ntype ast = ''File'' \<longrightarrow>
        calculate ast = 1 + length (filter decision_point (nodes ast)))
   \<and> ((\<forall>n \<in> set (descendants ast). \<not> decision_point n) \<longrightarrow> calculate ast = 1)
   \<and> calculate straight_line_function = 1
   \<and> calculate if_else_if = 3"
proof (intro conjI impI)
  show "calculate ast = 1 + length (filter decision_point (descendants ast))"
    by (rule calculate_descendants)
  show "calculate ast = 1 + length (filter decision_point (nodes ast))"
    if "ntype ast = ''File''"
    using that by (simp add: calculate_descendants nodes_def decision_point_def)
  show "calculate ast = 1" if "\<forall>n \<in> set (descendants ast). \<not> decision_point n"
    using that by (simp add: calculate_descendants filter_empty_conv[THEN iffD2])
  show "calculate straight_line_function = 1"
    by (simp add: calculate_descendants straight_line_function_def mk_file_def mk_block_def
        mk_identifier_def decision_point_def)
  show "calculate if_else_if = 3"
    by (simp add: calculate_descendants if_else_if_def mk_file_def mk_block_def
        mk_identifier_def decision_point_def)
qed

theorem calculate_counts_decision_points_witness:
  "ntype if_else_if = ''File''
   \<and> calculate if_else_if = 1 + length (filter decision_point (nodes if_else_if))
   \<and> length (filter decision_point (nodes if_else_if)) = 2
   \<and> filter decision_point (descendants straight_line_function) = []
   \<and> calculate straight_line_function = 1"
proof -
  have f: "ntype if_else_if = ''File''"
    by (simp add: if_else_if_def mk_file_def)
  have c: "length (filter decision_point (nodes if_else_if)) = 2"
    by (simp add: nodes_def if_else_if_def mk_file_def mk_block_def mk_identifier_def
        decision_point_def js_def)
  have d: "\<forall>n \<in> set (descendants straight_line_function). \<not> decision_point n"
    by (simp add: straight_line_function_def mk_file_def mk_block_def mk_identifier_def
        decision_point_def js_def)
  have e: "filter decision_point (descendants straight_line_function) = []"
    using d by (simp add: filter_empty_conv)
  from f c d e calculate_counts_decision_points [of if_else_if]
    calculate_counts_decision_points [of straight_line_function]
  show ?thesis by blast
qed

section \<open>A project without source files\<close>

lemma calculateMetrics_Nil:
  "calculateMetrics e [] =
     \<lparr>totalLinesOfCode = 0, averageComplexity = 0, totalFunctions = 0, totalClasses = 0,
      maintainabilityIndex = 0, issueBreakdown = (\<lambda>s. 0)\<rparr>"
  using Math_round_of_int[of 0]
  by (simp add: calculateMetrics_def double_mul_def double_div_def to_double_0 MI_zero)

lemma package_only_dir:
  "detectFrameworkAndSource package_only_env (js ''/proj'') = (js ''react'', js ''/proj'')"
  by (simp add: detectFrameworkAndSource_def package_only_env_def example_env_def
      indicators_def first_segment_def split_def has_code_extension_def endsWith_def js_def)

lemma package_only_files:
  "getJavaScriptFiles (path_join package_only_env) (js ''/proj'')
     (readdir_tree package_only_env (js ''/proj'')) = []"
  by (simp add: package_only_env_def example_env_def skipped_names_def is_source_name_def
      source_extensions_def endsWith_def js_def)

lemma package_only_linter:
  "initESLintForFramework package_only_env (js ''react'') = Inl example_error"
  by (simp add: initESLintForFramework_def package_only_env_def baseConfig_def js_def)

lemma empty_dir:
  "detectFrameworkAndSource empty_env (js ''/proj'') = (js ''node'', js ''/proj'')"
  by (simp add: detectFrameworkAndSource_def empty_env_def example_env_def
      indicators_def first_segment_def split_def has_code_extension_def endsWith_def js_def)

lemma empty_linter:
  "initESLintForFramework empty_env (js ''node'') = Inr (Some example_linter)"
  by (simp add: initESLintForFramework_def empty_env_def example_env_def)

text \<open>
  Claim C3, as amended. When no source file is found below the directory that is scanned
  and the linter for the detected framework can be constructed, the run returns, without
  calling the callback, a result with no files, no analyzed files, average complexity 0,
  maintainability index 0, no issues and no file results. When the constructor of the
  linter throws, the run throws what the constructor threw.
\<close>

theorem no_files_result:
  assumes "getJavaScriptFiles (path_join e) (snd (detectFrameworkAndSource e projectPath))
             (readdir_tree e (snd (detectFrameworkAndSource e projectPath))) = []"
  shows "(initESLintForFramework e (fst (detectFrameworkAndSource e projectPath)) = Inr eslint
          \<longrightarrow> (\<exists>r. analyzeCodebase e projectPath cb s = Inr (r, s)
                   \<and> r_totalFiles r = 0
                   \<and> r_analyzedFiles r = 0
                   \<and> averageComplexity (r_metrics r) = 0
                   \<and> maintainabilityIndex (r_metrics r) = 0
                   \<and> r_issues r = []
                   \<and> r_fileAnalyses r = []))
       \<and> (initESLintForFramework e (fst (detectFrameworkAndSource e projectPath)) = Inl err
          \<longrightarrow> analyzeCodebase e projectPath cb s = Inl err)"
  using assms
  by (simp add: analyzeCodebase_returns analyzeCodebase_throws Let_def calculateMetrics_Nil)

theorem no_files_result_witness:
  "getJavaScriptFiles (path_join empty_env) (snd (detectFrameworkAndSource empty_env (js ''/proj'')))
     (readdir_tree empty_env (snd (detectFrameworkAndSource empty_env (js ''/proj'')))) = []
   \<and> initESLintForFramework empty_env (fst (detectFrameworkAndSource empty_env (js ''/proj'')))
       = Inr (Some example_linter)
   \<and> (\<exists>r. analyzeCodebase empty_env (js ''/proj'') None () = Inr (r, ())
          \<and> r_totalFiles r = 0
          \<and> r_analyzedFiles r = 0
          \<and> averageComplexity (r_metrics r) = 0
          \<and> maintainabilityIndex (r_metrics r) = 0
          \<and> r_issues r = []
          \<and> r_fileAnalyses r = [])"
proof -
  have h: "getJavaScriptFiles (path_join empty_env)
             (snd (detectFrameworkAndSource empty_env (js ''/proj'')))
             (readdir_tree empty_env (snd (detectFrameworkAndSource empty_env (js ''/proj'')))) = []"
    by (simp add: empty_files)
  have l: "initESLintForFramework empty_env
             (fst (detectFrameworkAndSource empty_env (js ''/proj''))) = Inr (Some example_linter)"
    by (simp add: empty_dir empty_linter)
  from no_files_result[OF h, of "Some example_linter" None "()", THEN conjunct1] h l
  show ?thesis by simp
qed

text \<open>
  The run can throw though no source file is found. A directory that holds nothing but a
  package file is taken for a React project, and where the React plug-in of the linter
  cannot be resolved the constructor of the linter throws: the run ends with this
  exception.
\<close>

theorem no_files_throw_counterexample:
  "getJavaScriptFiles (path_join package_only_env)
     (snd (detectFrameworkAndSource package_only_env (js ''/proj'')))
     (readdir_tree package_only_env
        (snd (detectFrameworkAndSource package_only_env (js ''/proj'')))) = []
   \<and> analyzeCodebase package_only_env (js ''/proj'') None () = Inl example_error"
proof -
  have "initESLintForFramework package_only_env
          (fst (detectFrameworkAndSource package_only_env (js ''/proj''))) = Inl example_error"
    by (simp add: package_only_dir package_only_linter)
  then have "analyzeCodebase package_only_env (js ''/proj'') None () = Inl example_error"
    by (rule analyzeCodebase_throws)
  then show ?thesis
    by (simp add: package_only_dir package_only_files)
qed

section \<open>Order of the issues of a file\<close>

lemma runDetector_issues:
  "runDetector ast code rel d issues = issues @ detector_issues d ast code rel"
  by (simp add: runDetector_def detector_issues_def split: sum.splits)

text \<open>
  Claim C4. For a file that is read and parsed, the issues of its result are the lint
  issues, then those of the syntax detector, the logic detector, the performance
  detector and the security detector, in this order. A linter or a detector that throws
  contributes nothing.
\<close>

theorem issue_order:
  assumes "readFile e filePath = Inr code" and "parse e code = Inr ast"
  shows "fa_issues (analyzeFile e eslint filePath rootDir) =
           lint_issues_of eslint code filePath (path_relative e rootDir filePath)
           @ detector_issues (syntaxDetector e) ast code (path_relative e rootDir filePath)
           @ detector_issues (logicDetector e) ast code (path_relative e rootDir filePath)
           @ detector_issues (performanceDetector e) ast code (path_relative e rootDir filePath)
           @ detector_issues (securityDetector e) ast code (path_relative e rootDir filePath)"
  using assms
  by (simp add: analyzeFile_def Let_def runDetector_issues lint_issues_of_def
      split: option.splits sum.splits)

theorem issue_order_witness:
  "readFile example_env (js ''/proj/src/ok.js'') = Inr ok_code
   \<and> parse example_env ok_code = Inr if_else_if
   \<and> fa_issues (analyzeFile example_env (Some example_linter)
         (js ''/proj/src/ok.js'') (js ''/proj/src'')) =
       [\<lparr>i_type = js ''lint'', i_severity = Error, i_message = js ''a is not defined'',
         i_line = 1, i_column = 0, i_filePath = js ''ok.js'',
         i_code = Some (js ''no-undef'')\<rparr>,
        example_issue ''EMPTY_BLOCK'' (js ''ok.js''),
        example_issue ''XSS_RISK'' (js ''ok.js'')]"
proof -
  have l: "lint_issues_of (Some example_linter) ok_code
             (js ''/proj/src/ok.js'') (js ''ok.js'') =
           [\<lparr>i_type = js ''lint'', i_severity = Error, i_message = js ''a is not defined'',
             i_line = 1, i_column = 0, i_filePath = js ''ok.js'',
             i_code = Some (js ''no-undef'')\<rparr>]"
    by (simp add: lint_issues_of_def example_linter_def lintIssues_def lintIssue_def
        mapLintSeverity_def)
  have d: "detector_issues (syntaxDetector example_env) if_else_if ok_code (js ''ok.js'')
             = [example_issue ''EMPTY_BLOCK'' (js ''ok.js'')]"
    "detector_issues (logicDetector example_env) if_else_if ok_code (js ''ok.js'') = []"
    "detector_issues (performanceDetector example_env) if_else_if ok_code (js ''ok.js'') = []"
    "detector_issues (securityDetector example_env) if_else_if ok_code (js ''ok.js'')
             = [example_issue ''XSS_RISK'' (js ''ok.js'')]"
    by (simp_all add: detector_issues_def example_env_def detect_if_else_if)
  from issue_order[OF example_read_ok example_parse_ok,
      of "Some example_linter" "js ''/proj/src''"]
    example_read_ok example_parse_ok
  show ?thesis
    by (simp add: example_relative l d)
qed

section \<open>Parse failures\<close>

text \<open>
  Claim C5. When the text of a file is read but the parser throws, the result for the
  file holds exactly one issue, of type syntax, severity error and code PARSE_ERROR, with
  the message of the parser's error and its position (0 where the error has none); the
  metrics hold the number of lines of the text and nothing else. The failure stays
  within the file: when the file is one of those found in the project, the run, once its
  linter is constructed, returns, and this result is among its file results.
\<close>

theorem parse_failure_result:
  assumes "readFile e filePath = Inr code" and "parse e code = Inl err"
  shows "analyzeFile e eslint filePath rootDir =
           \<lparr>fa_filePath = path_relative e rootDir filePath,
            fa_issues =
              [\<lparr>i_type = js ''syntax'', i_severity = Error, i_message = err_message err,
                i_line = (case err_loc err of None \<Rightarrow> 0 | Some l \<Rightarrow> pos_line l),
                i_column = (case err_loc err of None \<Rightarrow> 0 | Some l \<Rightarrow> pos_column l),
                i_filePath = path_relative e rootDir filePath,
                i_code = Some (js ''PARSE_ERROR'')\<rparr>],
            fa_metrics =
              \<lparr>m_linesOfCode = length (split code newline), m_complexity = None,
               m_functions = None, m_classes = None, m_imports = None\<rparr>\<rparr>
         \<and> (filePath \<in> set (getJavaScriptFiles (path_join e)
                              (snd (detectFrameworkAndSource e projectPath))
                              (readdir_tree e (snd (detectFrameworkAndSource e projectPath))))
            \<and> initESLintForFramework e (fst (detectFrameworkAndSource e projectPath))
                = Inr engineLinter
            \<longrightarrow> (\<exists>r s'. analyzeCodebase e projectPath cb s = Inr (r, s')
                     \<and> analyzeFile e engineLinter filePath
                         (snd (detectFrameworkAndSource e projectPath))
                       \<in> set (r_fileAnalyses r)))"
proof (intro conjI impI)
  show "analyzeFile e eslint filePath rootDir =
           \<lparr>fa_filePath = path_relative e rootDir filePath,
            fa_issues =
              [\<lparr>i_type = js ''syntax'', i_severity = Error, i_message = err_message err,
                i_line = (case err_loc err of None \<Rightarrow> 0 | Some l \<Rightarrow> pos_line l),
                i_column = (case err_loc err of None \<Rightarrow> 0 | Some l \<Rightarrow> pos_column l),
                i_filePath = path_relative e rootDir filePath,
                i_code = Some (js ''PARSE_ERROR'')\<rparr>],
            fa_metrics =
              \<lparr>m_linesOfCode = length (split code newline), m_complexity = None,
               m_functions = None, m_classes = None, m_imports = None\<rparr>\<rparr>"
    using assms by (simp add: analyzeFile_def Let_def)
next
  assume "filePath \<in> set (getJavaScriptFiles (path_join e)
                              (snd (detectFrameworkAndSource e projectPath))
                              (readdir_tree e (snd (detectFrameworkAndSource e projectPath))))
          \<and> initESLintForFramework e (fst (detectFrameworkAndSource e projectPath))
                = Inr engineLinter"
  then show "\<exists>r s'. analyzeCodebase e projectPath cb s = Inr (r, s')
                     \<and> analyzeFile e engineLinter filePath
                         (snd (detectFrameworkAndSource e projectPath))
                       \<in> set (r_fileAnalyses r)"
    by (simp add: analyzeCodebase_returns Let_def)
qed

theorem parse_failure_result_witness:
  "readFile example_env (js ''/proj/src/bad.js'') = Inr bad_code
   \<and> parse example_env bad_code = Inl parse_error
   \<and> analyzeFile example_env None (js ''/proj/src/bad.js'') (js ''/proj/src'') =
       \<lparr>fa_filePath = js ''bad.js'',
        fa_issues =
          [\<lparr>i_type = js ''syntax'', i_severity = Error,
            i_message = js ''Unexpected token (1:4)'', i_line = 1, i_column = 4,
            i_filePath = js ''bad.js'', i_code = Some (js ''PARSE_ERROR'')\<rparr>],
        fa_metrics =
          \<lparr>m_linesOfCode = 2, m_complexity = None, m_functions = None, m_classes = None,
           m_imports = None\<rparr>\<rparr>
   \<and> js ''/proj/src/bad.js''
       \<in> set (getJavaScriptFiles (path_join example_env) (js ''/proj/src'')
                (readdir_tree example_env (js ''/proj/src'')))
   \<and> initESLintForFramework example_env (js ''react'') = Inr (Some example_linter)
   \<and> (\<exists>r s'. analyzeCodebase example_env (js ''/proj'') None () = Inr (r, s')
          \<and> analyzeFile example_env (Some example_linter) (js ''/proj/src/bad.js'')
               (js ''/proj/src'')
             \<in> set (r_fileAnalyses r))"
proof -
  have m: "js ''/proj/src/bad.js'' \<in> set (getJavaScriptFiles (path_join example_env)
             (js ''/proj/src'') (readdir_tree example_env (js ''/proj/src'')))"
    by (simp add: example_files)
  note r = parse_failure_result[OF example_read_bad example_parse_bad,
      of None "js ''/proj/src''" "js ''/proj''" "Some example_linter" None "()"]
  from r[THEN conjunct1] r[THEN conjunct2] example_read_bad example_parse_bad m
    example_linter_built
  show ?thesis
    by (simp add: example_relative example_lines parse_error_def example_dir)
qed

section \<open>Progress reports\<close>

lemma to_double_23_40: "to_double (23 / 40) = 2589569785738035 / 4503599627370496"
  using to_double_eqI[of "- 1" "23 / 40" 5179139571476070]
  by (simp add: power_int_minus)

lemma to_double_23_40_100:
  "to_double (64739244643450875 / 1125899906842624) = 8092405580431359 / 140737488355328"
  using to_double_eqI[of 5 "64739244643450875 / 1125899906842624" 8092405580431359]
  by (simp add: power_int_minus)

lemma progress_pct_23_of_40: "progress_pct 22 40 = 57"
  by (simp add: progress_pct_def double_div_def double_mul_def to_double_23_40
      to_double_23_40_100 Math_round_def floor_eq_iff)

lemma spec_pct_23_of_40: "spec_pct 23 40 = 58"
  by (simp add: spec_pct_def Math_round_def)

lemma callback_step_Some: "callback_step (Some f) v s = snd (f v s)"
  by (simp add: callback_step_def)

lemma fold_callback_values:
  "fold (\<lambda>j. callback_step (Some f) (g j)) ks s = fold (\<lambda>v s. snd (f v s)) (map g ks) s"
  by (induction ks arbitrary: s) (simp_all add: callback_step_Some)

lemma fold_recorder:
  "fold (\<lambda>v s. snd (recorder throws v s)) vs seen = seen @ vs"
  by (induction vs arbitrary: seen) (simp_all add: recorder_def)

lemma plain_files:
  assumes "\<forall>k \<in> set ks. f k \<notin> set skipped_names \<and> is_source_name (f k)"
  shows "getJavaScriptFiles join dir (Some (map (\<lambda>k. FileEntry (f k)) ks))
           = map (\<lambda>k. join dir (f k)) ks"
  using assms by (induction ks) simp_all

lemma js_name_is_source: "is_source_name (s @ js ''.js'')"
  by (simp add: is_source_name_def source_extensions_def endsWith_def js_def)

lemma js_name_not_skipped: "s @ js ''.js'' \<notin> set skipped_names"
proof
  assume "s @ js ''.js'' \<in> set skipped_names"
  then have "rev (s @ js ''.js'') \<in> rev ` set skipped_names" by (rule imageI)
  then show False by (simp add: skipped_names_def js_def)
qed

lemma forty_files:
  "length (getJavaScriptFiles (path_join forty_env) d (readdir_tree forty_env d)) = 40"
proof -
  have "readdir_tree forty_env d
          = Some (map (\<lambda>k. FileEntry (decimal k @ js ''.js'')) [0..<40])" for d
    by (simp add: forty_env_def)
  then show ?thesis
    using plain_files[of "[0..<40]" "\<lambda>k. decimal k @ js ''.js''"]
    by (simp add: js_name_is_source js_name_not_skipped del: upt_Suc)
qed

text \<open>
  Claim C6, as amended. In a run that finds at least one file and is given a callback, the
  callback is called once after every file, in the order of the files, with the value
  \<open>Math.round((completedCount / totalFiles) * 100)\<close> as double-precision arithmetic
  computes it: the state it leaves is the one these calls produce one after the other, and
  a callback that records its arguments has recorded exactly these values. The values
  never decrease and the last one is 100. Whether the callback throws is of no account:
  the run, once its linter is constructed, returns, and its result is the one of a run
  without callback.
\<close>

theorem progress_reports:
  fixes callback :: "'s progress_callback"
  assumes "n = length (getJavaScriptFiles (path_join e)
                 (snd (detectFrameworkAndSource e projectPath))
                 (readdir_tree e (snd (detectFrameworkAndSource e projectPath))))"
    and "1 \<le> n"
    and "initESLintForFramework e (fst (detectFrameworkAndSource e projectPath)) = Inr eslint"
  shows "\<exists>r. analyzeCodebase e projectPath (Some callback) s
               = Inr (r, fold (\<lambda>v s. snd (callback v s))
                           (map (\<lambda>i. progress_pct i n) [0..<n]) s)
            \<and> analyzeCodebase e projectPath (Some (recorder throws)) []
               = Inr (r, map (\<lambda>i. progress_pct i n) [0..<n])
            \<and> sorted (map (\<lambda>i. progress_pct i n) [0..<n])
            \<and> last (map (\<lambda>i. progress_pct i n) [0..<n]) = 100
            \<and> analyzeCodebase e projectPath (None :: 's progress_callback option) s'
               = Inr (r, s')
            \<and> r_totalFiles r = n"
proof -
  have "sorted (map (\<lambda>i. progress_pct i n) [0..<n])"
    by (rule progress_pct_sorted)
  moreover have "last (map (\<lambda>i. progress_pct i n) [0..<n]) = 100"
    using assms(2) progress_pct_last[of n] by (simp add: last_map)
  moreover have "fold (\<lambda>j. callback_step (None :: 's progress_callback option) (g j)) ks s'
                   = s'" for g :: "nat \<Rightarrow> int" and ks
    by (induction ks) (simp_all add: callback_step_def)
  ultimately show ?thesis
    using assms(1)
    by (simp add: analyzeCodebase_returns[OF assms(3)] Let_def fold_callback_values
        fold_recorder)
qed

lemma to_double_third: "to_double (1 / 3) = 6004799503160661 / 18014398509481984"
  using to_double_eqI[of "- 2" "1 / 3" 6004799503160661]
  by (simp add: power_int_minus)

lemma to_double_third_100:
  "to_double (6004799503160661 / 18014398509481984 * 100)
     = 4691249611844266 / 140737488355328"
  using to_double_eqI[of 5 "6004799503160661 / 18014398509481984 * 100" 4691249611844266]
  by (simp add: power_int_minus)

lemma to_double_two_thirds: "to_double (2 / 3) = 6004799503160661 / 9007199254740992"
  using to_double_eqI[of "- 1" "2 / 3" 6004799503160661]
  by (simp add: power_int_minus)

lemma to_double_two_thirds_100:
  "to_double (6004799503160661 / 9007199254740992 * 100)
     = 4691249611844266 / 70368744177664"
  using to_double_eqI[of 6 "6004799503160661 / 9007199254740992 * 100" 4691249611844266]
  by (simp add: power_int_minus)

lemma progress_pct_of_3:
  "progress_pct 0 3 = 33" "progress_pct 1 3 = 67" "progress_pct 2 3 = 100"
proof -
  have "progress_pct 0 3 = Math_round (to_double (to_double (1 / 3) * 100))"
    by (simp add: progress_pct_def double_div_def double_mul_def)
  also have "\<dots> = Math_round (4691249611844266 / 140737488355328 :: rat)"
    by (simp only: to_double_third to_double_third_100)
  also have "\<dots> = 33" by (simp add: Math_round_def floor_eq_iff)
  finally show "progress_pct 0 3 = 33" .
  have "progress_pct 1 3 = Math_round (to_double (to_double (2 / 3) * 100))"
    by (simp add: progress_pct_def double_div_def double_mul_def)
  also have "\<dots> = Math_round (4691249611844266 / 70368744177664 :: rat)"
    by (simp only: to_double_two_thirds to_double_two_thirds_100)
  also have "\<dots> = 67" by (simp add: Math_round_def floor_eq_iff)
  finally show "progress_pct 1 3 = 67" .
  show "progress_pct 2 3 = 100" using progress_pct_last[of 3] by simp
qed

theorem progress_reports_witness:
  "3 = length (getJavaScriptFiles (path_join example_env)
                 (snd (detectFrameworkAndSource example_env (js ''/proj'')))
                 (readdir_tree example_env (snd (detectFrameworkAndSource example_env (js ''/proj'')))))
   \<and> (1::nat) \<le> 3
   \<and> initESLintForFramework example_env
         (fst (detectFrameworkAndSource example_env (js ''/proj''))) = Inr (Some example_linter)
   \<and> (\<exists>r. analyzeCodebase example_env (js ''/proj'') (Some (recorder (\<lambda>v. v = 67))) []
            = Inr (r, [33, 67, 100])
          \<and> analyzeCodebase example_env (js ''/proj'')
              (None :: int list progress_callback option) [] = Inr (r, [])
          \<and> r_totalFiles r = 3)"
proof -
  have h: "3 = length (getJavaScriptFiles (path_join example_env)
                 (snd (detectFrameworkAndSource example_env (js ''/proj'')))
                 (readdir_tree example_env (snd (detectFrameworkAndSource example_env (js ''/proj'')))))"
    by (simp add: example_dir example_files)
  have u: "[0..<3] = [0, 1, 2]" by (simp add: upt_rec)
  have one: "(1::nat) \<le> 3" by simp
  have l: "initESLintForFramework example_env
             (fst (detectFrameworkAndSource example_env (js ''/proj'')))
           = Inr (Some example_linter)"
    by (rule example_linter_built)
  from progress_reports[OF h one l, of "recorder (\<lambda>v. v = 67)" "[]" "\<lambda>v. v = 67" "[]"]
  obtain r where
    "analyzeCodebase example_env (js ''/proj'') (Some (recorder (\<lambda>v. v = 67))) []
       = Inr (r, map (\<lambda>i. progress_pct i 3) [0..<3])"
    "analyzeCodebase example_env (js ''/proj'')
       (None :: int list progress_callback option) [] = Inr (r, [])"
    "r_totalFiles r = 3"
    by blast
  then show ?thesis
    using h l by (simp add: u progress_pct_of_3 progress_pct_of_3(2)[unfolded One_nat_def])
qed

text \<open>
  The percentage of the claim, \<open>round(100 * completedCount / totalFiles)\<close>, is not always
  what the callback is given: after 23 of 40 files the quotient \<open>23 / 40\<close> is rounded
  down to the nearest double, its product with 100 is \<open>57.49999999999999\<close>, and the
  callback receives 57, where the claim's formula gives 58.
\<close>

theorem progress_formula_counterexample:
  "r_totalFiles (fst (projr (analyzeCodebase forty_env (js ''/proj'')
                               (Some (recorder (\<lambda>v. False))) []))) = 40
   \<and> snd (projr (analyzeCodebase forty_env (js ''/proj'')
                   (Some (recorder (\<lambda>v. False))) [])) ! 22 = 57
   \<and> \<not> isl (analyzeCodebase forty_env (js ''/proj'') (Some (recorder (\<lambda>v. False))) [])
   \<and> spec_pct 23 40 = 58"
proof -
  have l: "initESLintForFramework forty_env
             (fst (detectFrameworkAndSource forty_env (js ''/proj'')))
           = Inr (Some example_linter)"
    by (simp add: initESLintForFramework_def forty_env_def example_env_def)
  have "snd (projr (analyzeCodebase forty_env (js ''/proj'')
                      (Some (recorder (\<lambda>v. False))) []))
          = map (\<lambda>j. progress_pct j 40) [0..<40]"
    by (simp add: analyzeCodebase_returns[OF l] Let_def forty_files fold_callback_values
        fold_recorder del: upt_Suc)
  then have b: "snd (projr (analyzeCodebase forty_env (js ''/proj'')
                  (Some (recorder (\<lambda>v. False))) [])) ! 22 = progress_pct 22 40"
    by (simp del: upt_Suc)
  have a: "r_totalFiles (fst (projr (analyzeCodebase forty_env (js ''/proj'')
                   (Some (recorder (\<lambda>v. False))) []))) = 40"
    "\<not> isl (analyzeCodebase forty_env (js ''/proj'') (Some (recorder (\<lambda>v. False))) [])"
    by (simp_all add: analyzeCodebase_returns[OF l] Let_def forty_files)
  from a b show ?thesis by (simp add: progress_pct_23_of_40 spec_pct_23_of_40)
qed

section \<open>Lines of code\<close>

text \<open>
  Claim C7. For a file whose text is read, the lines of code in its metrics are the
  number of pieces that splitting the text at the newline character gives, which is one
  more than the number of newline characters, whether or not the text ends in one.
\<close>

theorem linesOfCode_is_split_length:
  "readFile e filePath = Inr code \<Longrightarrow>
   m_linesOfCode (fa_metrics (analyzeFile e eslint filePath rootDir)) = length (split code newline)
   \<and> length (split code newline) = Suc (length (filter (\<lambda>c. c = newline) code))"
  by (simp add: analyzeFile_def Let_def split_length split: sum.splits)

theorem linesOfCode_is_split_length_witness:
  "readFile example_env (js ''/proj/src/ok.js'') = Inr ok_code
   \<and> m_linesOfCode (fa_metrics (analyzeFile example_env None (js ''/proj/src/ok.js'') (js ''/proj/src''))) = 2
   \<and> readFile example_env (js ''/proj/src/bad.js'') = Inr bad_code
   \<and> m_linesOfCode (fa_metrics (analyzeFile example_env None (js ''/proj/src/bad.js'') (js ''/proj/src''))) = 2"
proof -
  have a: "length (filter (\<lambda>c. c = newline) ok_code) = 1"
    by (simp add: ok_code_def js_def newline_def)
  have b: "length (filter (\<lambda>c. c = newline) bad_code) = 1"
    by (simp add: bad_code_def js_def newline_def)
  from linesOfCode_is_split_length[OF example_read_ok] linesOfCode_is_split_length[OF example_read_bad] a b example_read_ok example_read_bad
  show ?thesis by simp
qed

section \<open>Nested loops\<close>

lemma nested_issue_code: "has_code ''NESTED_LOOPS'' (nestedLoopsIssue fp n c)"
  by (simp add: has_code_def nestedLoopsIssue_def)

lemma other_issue_codes:
  "\<not> has_code ''NESTED_LOOPS'' (stringConcatIssue fp n)"
  by (simp add: has_code_def stringConcatIssue_def js_def)

lemma inner_paths_differ: "ip \<in> set (paths (pnode p)) \<Longrightarrow> ip \<noteq> p"
proof
  assume a: "ip \<in> set (paths (pnode p))" and "ip = p"
  from a have "pnode ip \<in> set (descendants (pnode p))"
    unfolding pnode_paths[symmetric] by simp
  then have "size (pnode ip) < size (pnode p)" by (rule descendants_smaller)
  with \<open>ip = p\<close> show False by simp
qed

lemma fold_forInnerVisitor:
  "\<forall>ip \<in> set ps. ip \<noteq> p \<Longrightarrow>
   fst (fold (forInnerVisitor p) ps st) = fst st + length (filter counted_loop (map pnode ps))"
  by (induction ps arbitrary: st) (auto simp: forInnerVisitor_def counted_loop_def Let_def)

lemma traverse_forInnerVisitor:
  "fst (traverse (forInnerVisitor p) (pnode p) (0, False)) = nestedCount (pnode p)"
  using fold_forInnerVisitor[of "paths (pnode p)" p "(0, False)"] inner_paths_differ[of _ p]
  by (auto simp: traverse_def nestedCount_def pnode_paths)

lemma perfForStatement_nested:
  "filter (has_code ''NESTED_LOOPS'') (perfForStatement fp p issues) =
     filter (has_code ''NESTED_LOOPS'') issues
     @ (if 2 \<le> nestedCount (pnode p)
        then [nestedLoopsIssue fp (pnode p) (nestedCount (pnode p))] else [])"
  by (simp add: perfForStatement_def Let_def traverse_forInnerVisitor nested_issue_code
      other_issue_codes)

lemma perfCallExpression_nested:
  "filter (has_code ''NESTED_LOOPS'') (perfCallExpression fp p issues) =
     filter (has_code ''NESTED_LOOPS'') issues"
  by (simp add: perfCallExpression_def Let_def has_code_def js_def split: option.splits)

lemma perfFunctionDeclaration_nested:
  "filter (has_code ''NESTED_LOOPS'') (perfFunctionDeclaration fp p issues) =
     filter (has_code ''NESTED_LOOPS'') issues"
  by (simp add: perfFunctionDeclaration_def Let_def has_code_def js_def split: option.splits)

lemma perfVisitor_nested:
  "filter (has_code ''NESTED_LOOPS'') (perfVisitor fp p issues) =
     filter (has_code ''NESTED_LOOPS'') issues
     @ (if ntype (pnode p) = ''ForStatement'' \<and> 2 \<le> nestedCount (pnode p)
        then [nestedLoopsIssue fp (pnode p) (nestedCount (pnode p))] else [])"
  by (simp add: perfVisitor_def Let_def perfForStatement_nested perfCallExpression_nested
      perfFunctionDeclaration_nested)

lemma fold_perfVisitor_nested:
  "filter (has_code ''NESTED_LOOPS'') (fold (perfVisitor fp) ps issues) =
     filter (has_code ''NESTED_LOOPS'') issues
     @ map (\<lambda>n. nestedLoopsIssue fp n (nestedCount n))
         (filter (\<lambda>n. ntype n = ''ForStatement'' \<and> 2 \<le> nestedCount n) (map pnode ps))"
  by (induction ps arbitrary: issues) (simp_all add: perfVisitor_nested)

text \<open>
  Claim C8, as amended. The issues with code NESTED_LOOPS that the performance detector
  reports for a tree are those of the \<open>for\<close> statements of the tree that have at least two
  \<open>for\<close> or \<open>while\<close> statements among the nodes below them, one issue per such
  statement, in the order of the traversal. The issue is a warning, and its message gives
  the complexity as \<open>n\<close> to the power of that count plus one. Loops of the kinds for-in,
  for-of and do-while are not counted.
\<close>

theorem nested_loops_issue_iff:
  "filter (has_code ''NESTED_LOOPS'') (PerformanceDetector_detect ast code fp) =
     map (\<lambda>n. nestedLoopsIssue fp n (nestedCount n))
       (filter (\<lambda>n. ntype n = ''ForStatement'' \<and> 2 \<le> nestedCount n) (descendants ast))
   \<and> nestedCount n = length (filter counted_loop (descendants n))
   \<and> i_severity (nestedLoopsIssue fp n (nestedCount n)) = Warning
   \<and> i_code (nestedLoopsIssue fp n (nestedCount n)) = Some (js ''NESTED_LOOPS'')
   \<and> i_message (nestedLoopsIssue fp n (nestedCount n)) =
       js ''O(n^'' @ decimal (nestedCount n + 1) @ js '') complexity detected '' @ em_dash
       @ js '' consider optimization''"
  using fold_perfVisitor_nested[of fp "paths ast" "[]"]
  by (simp add: PerformanceDetector_detect_def traverse_def pnode_paths nestedCount_def
      nestedLoopsIssue_def)

theorem nested_loops_issue_iff_witness:
  "nestedCount for_for_while = 2
   \<and> filter (has_code ''NESTED_LOOPS'')
       (PerformanceDetector_detect (mk_file [for_for_while]) (js ''x'') (js ''a.js''))
       = [nestedLoopsIssue (js ''a.js'') for_for_while 2]
   \<and> i_message (nestedLoopsIssue (js ''a.js'') for_for_while 2)
       = js ''O(n^3) complexity detected '' @ em_dash @ js '' consider optimization''
   \<and> i_line (nestedLoopsIssue (js ''a.js'') for_for_while 2) = 1"
proof -
  have c: "nestedCount for_for_while = 2"
    by (simp add: nestedCount_def for_for_while_def mk_block_def mk_identifier_def
        counted_loop_def)
  have d: "filter (\<lambda>n. ntype n = ''ForStatement'' \<and> 2 \<le> nestedCount n)
             (descendants (mk_file [for_for_while])) = [for_for_while]"
    unfolding mk_file_def
    by (simp add: c) (simp add: for_for_while_def mk_block_def mk_identifier_def
        nestedCount_def counted_loop_def)
  have l: "i_line (nestedLoopsIssue (js ''a.js'') for_for_while 2) = 1"
    by (simp add: nestedLoopsIssue_def start_line_def for_for_while_def)
  from nested_loops_issue_iff[of "mk_file [for_for_while]" "js ''x''" "js ''a.js''" for_for_while]
    c d l
  show ?thesis by (simp add: js_def)
qed

text \<open>
  The claim as it stands fails: a \<open>for\<close> statement that holds a for-in loop which holds a
  for-of loop contains two nested loop constructs, and no NESTED_LOOPS issue is reported.
\<close>

theorem nested_loops_counterexample:
  "ntype for_in_of = ''ForStatement''
   \<and> length (filter loop_construct (descendants for_in_of)) = 2
   \<and> filter (has_code ''NESTED_LOOPS'')
       (PerformanceDetector_detect (mk_file [for_in_of]) (js ''x'') (js ''a.js'')) = []"
proof -
  have a: "ntype for_in_of = ''ForStatement''" by (simp add: for_in_of_def)
  have b: "length (filter loop_construct (descendants for_in_of)) = 2"
    by (simp add: for_in_of_def mk_block_def mk_identifier_def loop_construct_def)
  have c: "nestedCount for_in_of = 0"
    by (simp add: nestedCount_def for_in_of_def mk_block_def mk_identifier_def counted_loop_def)
  have d: "filter (\<lambda>n. ntype n = ''ForStatement'' \<and> 2 \<le> nestedCount n)
             (descendants (mk_file [for_in_of])) = []"
    unfolding mk_file_def
    by (simp add: c) (simp add: for_in_of_def mk_block_def mk_identifier_def)
  have "filter (has_code ''NESTED_LOOPS'')
       (PerformanceDetector_detect (mk_file [for_in_of]) (js ''x'') (js ''a.js'')) = []"
    using fold_perfVisitor_nested[of "js ''a.js''" "paths (mk_file [for_in_of])" "[]"]
    by (simp add: PerformanceDetector_detect_def traverse_def pnode_paths d)
  with a b show ?thesis by simp
qed

section \<open>Hard-coded secrets\<close>

lemma js_includes_sublist: "js_includes s t \<longleftrightarrow> sublist t s"
  by (induction s) (auto simp: sublist_Cons_right)

text \<open>
  What the handler for variable declarators does: for a declarator that binds an
  identifier to a string literal it adds an issue of severity error and code
  HARDCODED_SECRET exactly when the lower-cased name of the identifier contains
  \<open>password\<close>, \<open>secret\<close>, \<open>key\<close> or \<open>token\<close> and the literal has more than 8 characters.
\<close>

lemma secVariableDeclarator_iff:
  assumes "get_child (pnode p) ''id'' = Some ident" and "ntype ident = ''Identifier''"
    and "get_prop ident ''name'' = Some (JStr name)"
    and "get_child (pnode p) ''init'' = Some init" and "ntype init = ''StringLiteral''"
    and "get_prop init ''value'' = Some (JStr v)"
  shows "secVariableDeclarator e fp p issues =
           Inr (if (sublist (js ''password'') (String_toLowerCase e name)
                    \<or> sublist (js ''secret'') (String_toLowerCase e name)
                    \<or> sublist (js ''key'') (String_toLowerCase e name)
                    \<or> sublist (js ''token'') (String_toLowerCase e name))
                   \<and> 8 < length v
                then issues @ [hardcodedSecretIssue fp (pnode p)] else issues)"
  using assms
  by (simp add: secVariableDeclarator_def Let_def isType_def str_prop_def name_toLowerCase_def
      js_includes_sublist)

lemma hardcodedSecretIssue_code:
  "i_code (hardcodedSecretIssue fp n) = Some (js ''HARDCODED_SECRET'')"
  "i_severity (hardcodedSecretIssue fp n) = Error"
  "has_code ''HARDCODED_SECRET'' (hardcodedSecretIssue fp n)"
  by (simp_all add: hardcodedSecretIssue_def securityIssue_def has_code_def)

lemma secret_declarator_flagged:
  "secVariableDeclarator example_env fp \<lparr>pnode = secret_declarator, parent = q\<rparr> issues
     = Inr (issues @ [hardcodedSecretIssue fp secret_declarator])"
  by (simp add: secVariableDeclarator_def Let_def isType_def str_prop_def name_toLowerCase_def
      secret_declarator_def declarator_def mk_identifier_def mk_string_literal_def
      get_child_def get_prop_def example_env_def example_toLowerCase_def js_def)

lemma short_secret_not_flagged:
  "secVariableDeclarator example_env fp
     \<lparr>pnode = declarator ''password'' ''abc'', parent = q\<rparr> issues = Inr issues"
  by (simp add: secVariableDeclarator_def Let_def isType_def str_prop_def name_toLowerCase_def
      declarator_def mk_identifier_def mk_string_literal_def
      get_child_def get_prop_def example_env_def example_toLowerCase_def js_def)

lemma kelvin_key_flagged:
  "secVariableDeclarator example_env fp
     \<lparr>pnode = Node ''VariableDeclarator'' None []
                [(''id'', Node ''Identifier'' None [(''name'', JStr (0x212A # js ''ey''))] []),
                 (''init'', mk_string_literal ''0123456789'')],
      parent = q\<rparr> []
     = Inr [hardcodedSecretIssue fp
              (Node ''VariableDeclarator'' None []
                 [(''id'', Node ''Identifier'' None [(''name'', JStr (0x212A # js ''ey''))] []),
                  (''init'', mk_string_literal ''0123456789'')])]"
  by (simp add: secVariableDeclarator_def Let_def isType_def str_prop_def name_toLowerCase_def
      mk_string_literal_def get_child_def get_prop_def example_env_def example_toLowerCase_def
      js_def)

lemma exec_call_throws:
  "secCallExpression example_env fp \<lparr>pnode = exec_call, parent = q\<rparr> issues
     = Inl (scope_error ''Identifier'')"
  by (simp add: secCallExpression_def Let_def isIdentifierNamed_def isType_def str_prop_def
      isSQLQuery_def isCommandExecution_def lowered_name_in_def name_toLowerCase_def
      property_of_def nodeContainsUserInput_def traverse_checked_def get_children_def
      exec_call_def mk_identifier_def get_child_def get_prop_def example_env_def
      example_toLowerCase_def js_def)

lemma detect_secret_alone:
  "SecurityDetector_detect example_env secret_alone code fp
     = Inr [hardcodedSecretIssue fp secret_declarator]"
proof -
  have d: "paths secret_declarator
             = [\<lparr>pnode = mk_identifier ''password'', parent = Some secret_declarator\<rparr>,
                \<lparr>pnode = mk_string_literal ''abcdef123'', parent = Some secret_declarator\<rparr>]"
    by (simp add: secret_declarator_def declarator_def mk_identifier_def mk_string_literal_def)
  have t: "ntype secret_declarator = ''VariableDeclarator''"
    "ntype (mk_identifier a) = ''Identifier''" "ntype (mk_string_literal b) = ''StringLiteral''"
    for a b
    by (simp_all add: secret_declarator_def declarator_def mk_identifier_def
        mk_string_literal_def)
  show ?thesis
    by (simp add: SecurityDetector_detect_def traverse_checked_def traverse_throwing_def
        secret_alone_def mk_file_def secret_declaration_def d t secVisitor_def
        secret_declarator_flagged)
qed

lemma detect_secret_then_exec:
  "SecurityDetector_detect example_env secret_then_exec code fp
     = Inl (scope_error ''Identifier'')"
proof -
  have d: "paths secret_declarator
             = [\<lparr>pnode = mk_identifier ''password'', parent = Some secret_declarator\<rparr>,
                \<lparr>pnode = mk_string_literal ''abcdef123'', parent = Some secret_declarator\<rparr>]"
    by (simp add: secret_declarator_def declarator_def mk_identifier_def mk_string_literal_def)
  have t: "ntype secret_declarator = ''VariableDeclarator''"
    "ntype (mk_identifier a) = ''Identifier''" "ntype (mk_string_literal b) = ''StringLiteral''"
    "ntype exec_call = ''CallExpression''"
    for a b
    by (simp_all add: secret_declarator_def declarator_def mk_identifier_def
        mk_string_literal_def exec_call_def)
  have c: "\<exists>ps. paths exec_call = ps" by simp
  have f: "fold (\<lambda>p r. case r of Inl err \<Rightarrow> Inl err | Inr s \<Rightarrow> visitor p s) ps (Inl err)
             = Inl err" for visitor :: "path \<Rightarrow> 's \<Rightarrow> js_error + 's" and ps err
    by (induction ps) simp_all
  show ?thesis
    by (simp add: SecurityDetector_detect_def traverse_checked_def traverse_throwing_def
        secret_then_exec_def mk_file_def secret_declaration_def d t secVisitor_def
        secret_declarator_flagged exec_call_throws f)
qed

lemma secret_files:
  "readFile secret_env (js ''/proj/src/config.js'') = Inr secret_code"
  "readFile secret_env (js ''/proj/src/match.js'') = Inr secret_exec_code"
  "parse secret_env secret_code = Inr secret_alone"
  "parse secret_env secret_exec_code = Inr secret_then_exec"
  "path_relative secret_env (js ''/proj/src'') (js ''/proj/src/config.js'') = js ''config.js''"
  "path_relative secret_env (js ''/proj/src'') (js ''/proj/src/match.js'') = js ''match.js''"
  by (simp_all add: secret_env_def example_env_def secret_exec_code_def secret_code_def js_def)

lemma secret_issues:
  assumes "readFile secret_env filePath = Inr code" and "parse secret_env code = Inr ast"
    and "path_relative secret_env rootDir filePath = rel"
  shows "filter (has_code ''HARDCODED_SECRET'') (fa_issues (analyzeFile secret_env None filePath rootDir))
           = filter (has_code ''HARDCODED_SECRET'')
               (PerformanceDetector_detect ast code rel
                @ (case SecurityDetector_detect example_env ast code rel of
                     Inl err \<Rightarrow> [] | Inr found \<Rightarrow> found))"
  using assms
  by (simp add: analyzeFile_def Let_def runDetector_def secret_env_def example_env_def
      has_code_def example_issue_def js_def split: sum.splits)

text \<open>
  Claim C9. A declarator that binds an identifier whose lower-cased name contains
  \<open>password\<close>, \<open>secret\<close>, \<open>key\<close> or \<open>token\<close> to a string literal of more than 8 characters
  is to be reported with code HARDCODED_SECRET. The handler for declarators does report
  \<^verbatim>\<open>const password = "abcdef123";\<close>, and so does the detector on a file that holds this
  statement only. In a file where the statement \<^verbatim>\<open>re.exec(s);\<close> follows, the detector
  reaches the call of \<open>exec\<close>, looks into its argument with a traversal started on the bare
  argument node, and this traversal throws: the detector ends with the exception, the
  engine takes the detector to have failed, and the result of the file holds no
  HARDCODED_SECRET issue.
\<close>

theorem hardcoded_secret_lost:
  "secVariableDeclarator example_env (js ''match.js'')
      \<lparr>pnode = secret_declarator, parent = Some secret_declaration\<rparr> []
     = Inr [hardcodedSecretIssue (js ''match.js'') secret_declarator]
   \<and> i_code (hardcodedSecretIssue (js ''match.js'') secret_declarator)
       = Some (js ''HARDCODED_SECRET'')
   \<and> SecurityDetector_detect example_env secret_alone secret_code (js ''config.js'')
       = Inr [hardcodedSecretIssue (js ''config.js'') secret_declarator]
   \<and> SecurityDetector_detect example_env secret_then_exec secret_exec_code (js ''match.js'')
       = Inl (scope_error ''Identifier'')
   \<and> filter (has_code ''HARDCODED_SECRET'')
        (fa_issues (analyzeFile secret_env None (js ''/proj/src/config.js'') (js ''/proj/src'')))
       = [hardcodedSecretIssue (js ''config.js'') secret_declarator]
   \<and> filter (has_code ''HARDCODED_SECRET'')
        (fa_issues (analyzeFile secret_env None (js ''/proj/src/match.js'') (js ''/proj/src'')))
       = []"
proof -
  have p: "PerformanceDetector_detect secret_alone code rel = []"
    "PerformanceDetector_detect secret_then_exec code rel = []" for code rel
    by (simp_all add: PerformanceDetector_detect_def traverse_def secret_alone_def
        secret_then_exec_def mk_file_def secret_declaration_def secret_declarator_def
        declarator_def exec_call_def mk_identifier_def mk_string_literal_def perfVisitor_def
        perfCallExpression_def Let_def isType_def get_child_def str_prop_def get_prop_def
        js_def)
  show ?thesis
    by (simp add: secret_declarator_flagged[of _ _ "[]", simplified] hardcodedSecretIssue_code
        detect_secret_alone detect_secret_then_exec
        secret_issues[OF secret_files(1) secret_files(3) secret_files(5)]
        secret_issues[OF secret_files(2) secret_files(4) secret_files(6)] p)
qed

section \<open>No file is dropped\<close>

lemma analyzeFile_filePath:
  "fa_filePath (analyzeFile e eslint filePath rootDir) = path_relative e rootDir filePath"
  by (simp add: analyzeFile_def Let_def split: sum.splits)

text \<open>
  Claim C10. In the result of a run that returns, the number of analyzed files is the
  number of files found, the list of file results has that many entries, and the entries
  are those of the files found, in the order in which they were found. This holds
  whatever the file system, the parser, the linter, the detectors and the complexity
  calculator do, throwing included. (The traversals of the helpers that count functions,
  classes and imports, which the source does not guard, are total here.)
\<close>

theorem every_file_has_a_result:
  assumes "analyzeCodebase e projectPath cb s = Inr (r, s')"
  shows "r_analyzedFiles r = r_totalFiles r
       \<and> length (r_fileAnalyses r) = r_totalFiles r
       \<and> r_totalFiles r
         = length (getJavaScriptFiles (path_join e) (snd (detectFrameworkAndSource e projectPath))
                    (readdir_tree e (snd (detectFrameworkAndSource e projectPath))))
       \<and> map fa_filePath (r_fileAnalyses r)
         = map (path_relative e (snd (detectFrameworkAndSource e projectPath)))
             (getJavaScriptFiles (path_join e) (snd (detectFrameworkAndSource e projectPath))
                (readdir_tree e (snd (detectFrameworkAndSource e projectPath))))"
proof -
  from analyzeCodebase_returned[OF assms] obtain eslint where
    "initESLintForFramework e (fst (detectFrameworkAndSource e projectPath)) = Inr eslint"
    by blast
  from analyzeCodebase_returns[OF this, of cb s] assms show ?thesis
    by (auto simp: Let_def analyzeFile_filePath comp_def)
qed

theorem every_file_has_a_result_witness:
  "\<exists>r. analyzeCodebase example_env (js ''/proj'') None () = Inr (r, ())
       \<and> r_totalFiles r = 3
       \<and> r_analyzedFiles r = 3
       \<and> map fa_filePath (r_fileAnalyses r) = [js ''ok.js'', js ''bad.js'', js ''gone.ts'']"
proof -
  have "initESLintForFramework example_env
          (fst (detectFrameworkAndSource example_env (js ''/proj'')))
        = Inr (Some example_linter)"
    by (rule example_linter_built)
  from analyzeCodebase_returns[OF this, of None "()"] obtain r where
    r: "analyzeCodebase example_env (js ''/proj'') None () = Inr (r, ())"
    by (simp add: Let_def callback_step_def)
  from every_file_has_a_result[OF r] r show ?thesis
    by (simp add: example_dir example_files example_relative)
qed

end
